theory Spec2Isabelle
  imports Main "HOL-Library.AList"
begin

section \<open>The copilot-premium-usage-exporter in HOL\<close>

text \<open>
  The exporter polls the GitHub billing API and republishes per-user usage as gauges.
  The embedding follows the Go sources: the GitHub client of package \<open>github\<close>
  (\<open>updateRateLimit\<close>, \<open>sleepSecondaryRateLimit\<close>, \<open>sleepPrimaryRateLimit\<close>,
  \<open>get\<close>, \<open>ListCopilotSeats\<close>, \<open>GetUserPremiumUsage\<close>), \<open>collect\<close> of package
  \<open>main\<close> and \<open>Load\<close> of package \<open>config\<close>.

  Everything outside the repository is explicit state: the network answers each request
  from a function of the requests sent so far, the clock is a number of nanoseconds that
  \<open>time.Sleep\<close> advances, and every call of \<open>time.Sleep\<close> is recorded. The clock
  moves only while the process sleeps. Calls of the logger have no effect on any value
  computed and are left out. The worker and the scrapes run concurrently; their steps are
  interleaved by a list of actions.
\<close>

subsection \<open>Library: \<open>strconv\<close>\<close>

text \<open>
  \<open>strconv.ParseInt(s, 10, 64)\<close>: an optional sign, then one or more decimal digits and
  nothing else; a value outside the signed 64-bit range is an error. The callers only
  test \<open>err == nil\<close>, so an error is \<open>None\<close>. On a 64-bit platform
  \<open>strconv.Atoi\<close> accepts the same strings with the same values.
\<close>

definition digit_value :: "char \<Rightarrow> nat option" where
  "digit_value ch =
     (let n = (of_char ch :: nat) in if 48 \<le> n \<and> n \<le> 57 then Some (n - 48) else None)"

fun parse_digits :: "nat \<Rightarrow> string \<Rightarrow> nat option" where
  "parse_digits acc [] = Some acc"
| "parse_digits acc (ch # s) =
     (case digit_value ch of
        None \<Rightarrow> None
      | Some d \<Rightarrow> parse_digits (acc * 10 + d) s)"

definition strconv_ParseUint :: "string \<Rightarrow> nat option" where
  "strconv_ParseUint s = (if s = [] then None else parse_digits 0 s)"

definition strconv_ParseInt :: "string \<Rightarrow> int option" where
  "strconv_ParseInt s =
     (case s of
        [] \<Rightarrow> None
      | ch # s' \<Rightarrow>
          (let neg = (ch = CHR ''-'');
               digits = (if ch = CHR ''+'' \<or> ch = CHR ''-'' then s' else s)
           in case strconv_ParseUint digits of
                None \<Rightarrow> None
              | Some un \<Rightarrow>
                  if \<not> neg \<and> un \<ge> 2 ^ 63 then None
                  else if neg \<and> un > 2 ^ 63 then None
                  else Some (if neg then - int un else int un)))"

definition strconv_Atoi :: "string \<Rightarrow> int option" where
  "strconv_Atoi s = strconv_ParseInt s"

subsection \<open>Library: \<open>time\<close>\<close>

text \<open>
  A \<open>time.Duration\<close> is a signed 64-bit count of nanoseconds: an \<open>int\<close> kept in range
  by \<open>wrap64\<close>, which is what Go's \<open>+\<close> and \<open>*\<close> on \<open>int64\<close> do on overflow.
  A \<open>time.Time\<close> is a number of nanoseconds since the Unix epoch. \<open>Time.Sub\<close>
  saturates at the largest and smallest \<open>Duration\<close>.
\<close>

type_synonym Duration = int
type_synonym Time = int

definition wrap64 :: "int \<Rightarrow> int" where
  "wrap64 x = (x + 2 ^ 63) mod 2 ^ 64 - 2 ^ 63"

definition maxDuration :: Duration where
  "maxDuration = 2 ^ 63 - 1"

definition minDuration :: Duration where
  "minDuration = - (2 ^ 63)"

definition time_Second :: Duration where
  "time_Second = 1000000000"

definition duration_add :: "Duration \<Rightarrow> Duration \<Rightarrow> Duration" where
  "duration_add a b = wrap64 (a + b)"

definition duration_mul :: "Duration \<Rightarrow> Duration \<Rightarrow> Duration" where
  "duration_mul a b = wrap64 (a * b)"

definition time_Unix :: "int \<Rightarrow> Time" where
  "time_Unix sec = sec * 1000000000"

definition time_zero :: Time where
  "time_zero = time_Unix (- 62135596800)"

definition time_Sub :: "Time \<Rightarrow> Time \<Rightarrow> Duration" where
  "time_Sub t u =
     (if t - u > maxDuration then maxDuration
      else if t - u < minDuration then minDuration
      else t - u)"

subsection \<open>Library: \<open>net/http\<close>\<close>

text \<open>
  A header maps a name to its values; \<open>Get\<close> returns the first value, or the empty
  string when there is none, and \<open>Set\<close> replaces the values of a name. Names are
  written as the code writes them; the library compares them in canonical form.
\<close>

type_synonym Header = "(string \<times> string list) list"

definition header_Get :: "Header \<Rightarrow> string \<Rightarrow> string" where
  "header_Get h k =
     (case map_of h k of
        None \<Rightarrow> ''''
      | Some [] \<Rightarrow> ''''
      | Some (v # _) \<Rightarrow> v)"

definition header_Set :: "Header \<Rightarrow> string \<Rightarrow> string \<Rightarrow> Header" where
  "header_Set h k v = AList.update k [v] h"

record Request =
  req_URL :: string
  req_Header :: Header

record Response =
  StatusCode :: int
  Header :: Header
  Body :: string

subsection \<open>Errors\<close>

text \<open>
  One constructor for each error the code builds with \<open>fmt.Errorf\<close>, with the values
  its format string prints, and one for each error a library call hands back.
  \<open>Wrapped\<close> wraps an error with \<open>%w\<close>.
\<close>

datatype err_context =
    ListingSeatsPage int
  | GettingUsageForUser string
  | ListingSeats

datatype error =
    NewRequestError string
  | TransportError string
  | DecodeError string
  | SecondaryRateLimited string int
  | PrimaryRateLimited string int
  | UnexpectedStatus int string
  | ExceededMaxRetries string
  | Wrapped err_context error

subsection \<open>The world outside the process\<close>

text \<open>
  \<open>net\<close> is the server and the transport together: given the requests sent so far, the
  last one being the current one, it is the outcome of \<open>httpClient.Do\<close>: the message
  of a transport error, or a response. \<open>bad_url\<close> is
  the error of \<open>http.NewRequest\<close> for a URL that does not parse. \<open>now\<close> is the
  clock; \<open>sent\<close> and \<open>slept\<close> record the requests issued and the calls of
  \<open>time.Sleep\<close>, in order.
\<close>

record world =
  net :: "Request list \<Rightarrow> string + Response"
  bad_url :: "string \<Rightarrow> string option"
  now :: Time
  sent :: "Request list"
  slept :: "Duration list"

definition http_NewRequest :: "world \<Rightarrow> string \<Rightarrow> error + Request" where
  "http_NewRequest w url =
     (case bad_url w url of
        Some msg \<Rightarrow> Inl (NewRequestError msg)
      | None \<Rightarrow> Inr \<lparr>req_URL = url, req_Header = []\<rparr>)"

definition http_Do :: "world \<Rightarrow> Request \<Rightarrow> (error + Response) \<times> world" where
  "http_Do w req =
     (case net w (sent w @ [req]) of
        Inl msg \<Rightarrow> (Inl (TransportError msg), w\<lparr>sent := sent w @ [req]\<rparr>)
      | Inr resp \<Rightarrow> (Inr resp, w\<lparr>sent := sent w @ [req]\<rparr>))"

text \<open>\<open>time.Sleep\<close> returns at once for a duration that is zero or negative.\<close>

definition time_Sleep :: "world \<Rightarrow> Duration \<Rightarrow> world" where
  "time_Sleep w d = w\<lparr>now := now w + max 0 d, slept := slept w @ [d]\<rparr>"

definition time_Until :: "world \<Rightarrow> Time \<Rightarrow> Duration" where
  "time_Until w t = time_Sub t (now w)"

text \<open>
  \<open>json.NewDecoder(body).Decode(out)\<close>: what it produces depends on the type of the
  target, so the decoding of a non-empty body is the parameter \<open>unmarshal\<close>. A body with
  no bytes holds no JSON value and \<open>Decode\<close> returns \<open>io.EOF\<close>.
\<close>

definition json_Decode :: "(string \<Rightarrow> string + 'a) \<Rightarrow> string \<Rightarrow> error + 'a" where
  "json_Decode unmarshal body =
     (if body = [] then Inl (DecodeError ''EOF'')
      else case unmarshal body of
             Inl msg \<Rightarrow> Inl (DecodeError msg)
           | Inr v \<Rightarrow> Inr v)"

subsection \<open>The client\<close>

definition maxRetries :: nat where
  "maxRetries = 3"

definition defaultFallbackSleep :: Duration where
  "defaultFallbackSleep = duration_mul 60 time_Second"

definition rateLimitResetBuffer :: Duration where
  "rateLimitResetBuffer = duration_mul 5 time_Second"

record Client =
  token :: string
  rateLimitRemaining :: int
  rateLimitReset :: Time

definition NewClient :: "string \<Rightarrow> Client" where
  "NewClient tok = \<lparr>token = tok, rateLimitRemaining = - 1, rateLimitReset = time_zero\<rparr>"

definition updateRateLimit :: "Client \<Rightarrow> Response \<Rightarrow> Client" where
  "updateRateLimit c resp =
     (let c1 =
            (let s = header_Get (Header resp) ''X-RateLimit-Remaining'' in
             if s \<noteq> '''' then
               (case strconv_Atoi s of
                  Some n \<Rightarrow> c\<lparr>rateLimitRemaining := n\<rparr>
                | None \<Rightarrow> c)
             else c)
      in (let s = header_Get (Header resp) ''X-RateLimit-Reset'' in
          if s \<noteq> '''' then
            (case strconv_ParseInt s of
               Some unix \<Rightarrow> c1\<lparr>rateLimitReset := time_Unix unix\<rparr>
             | None \<Rightarrow> c1)
          else c1))"

definition setHeaders :: "Client \<Rightarrow> Request \<Rightarrow> Request" where
  "setHeaders c req =
     req\<lparr>req_Header :=
           header_Set
             (header_Set
                (header_Set (req_Header req) ''Accept'' ''application/vnd.github+json'')
                ''Authorization'' (''Bearer '' @ token c))
             ''X-GitHub-Api-Version'' ''2022-11-28''\<rparr>"

definition sleepSecondaryRateLimit :: "world \<Rightarrow> Response \<Rightarrow> Duration \<times> world" where
  "sleepSecondaryRateLimit w resp =
     (let s = header_Get (Header resp) ''Retry-After'';
          parsed = (if s \<noteq> '''' then strconv_ParseInt s else None)
      in case parsed of
           Some secs \<Rightarrow>
             if secs > 0 then
               (let d = duration_mul secs time_Second in (d, time_Sleep w d))
             else (defaultFallbackSleep, time_Sleep w defaultFallbackSleep)
         | None \<Rightarrow> (defaultFallbackSleep, time_Sleep w defaultFallbackSleep))"

definition sleepPrimaryRateLimit :: "world \<Rightarrow> Response \<Rightarrow> Duration \<times> world" where
  "sleepPrimaryRateLimit w resp =
     (let s = header_Get (Header resp) ''X-RateLimit-Reset'';
          parsed = (if s \<noteq> '''' then strconv_ParseInt s else None)
      in case parsed of
           Some unix \<Rightarrow>
             (let d = duration_add (time_Until w (time_Unix unix)) rateLimitResetBuffer in
              if d > 0 then (d, time_Sleep w d)
              else (defaultFallbackSleep, time_Sleep w defaultFallbackSleep))
         | None \<Rightarrow> (defaultFallbackSleep, time_Sleep w defaultFallbackSleep))"

text \<open>
  The body of the loop \<open>for attempt := range maxRetries\<close> of \<open>get\<close>, from the attempt
  given; the statement after the loop is the last branch.
\<close>

function get_attempts ::
  "(string \<Rightarrow> string + 'a) \<Rightarrow> Client \<Rightarrow> world \<Rightarrow> string \<Rightarrow> nat \<Rightarrow> (error + 'a) \<times> Client \<times> world"
  where
  "get_attempts unmarshal c w url attempt =
     (if attempt < maxRetries then
        (case http_NewRequest w url of
           Inl err \<Rightarrow> (Inl err, c, w)
         | Inr req \<Rightarrow>
             (case http_Do w (setHeaders c req) of
                (Inl err, w1) \<Rightarrow> (Inl err, c, w1)
              | (Inr resp, w1) \<Rightarrow>
                  if StatusCode resp = 200 then
                    (json_Decode unmarshal (Body resp), updateRateLimit c resp, w1)
                  else if StatusCode resp = 429 then
                    (let retriesRemaining = int maxRetries - int attempt - 1;
                         (waited, w2) = sleepSecondaryRateLimit w1 resp
                     in if retriesRemaining = 0
                        then (Inl (SecondaryRateLimited url (int maxRetries)), c, w2)
                        else get_attempts unmarshal c w2 url (attempt + 1))
                  else if StatusCode resp = 403 then
                    (if header_Get (Header resp) ''X-RateLimit-Remaining'' \<noteq> ''0''
                     then (Inl (UnexpectedStatus (StatusCode resp) url), c, w1)
                     else
                       (let retriesRemaining = int maxRetries - int attempt - 1;
                            (waited, w2) = sleepPrimaryRateLimit w1 resp
                        in if retriesRemaining = 0
                           then (Inl (PrimaryRateLimited url (int maxRetries)), c, w2)
                           else get_attempts unmarshal c w2 url (attempt + 1)))
                  else (Inl (UnexpectedStatus (StatusCode resp) url), c, w1)))
      else (Inl (ExceededMaxRetries url), c, w))"
  by pat_completeness auto
termination
  by (relation "measure (\<lambda>(unmarshal, c, w, url, attempt). maxRetries - attempt)") auto

declare get_attempts.simps [simp del]

text \<open>\<open>get\<close>: the preemptive wait, then the attempts.\<close>

definition preemptive_wait :: "Client \<Rightarrow> world \<Rightarrow> world" where
  "preemptive_wait c w =
     (if rateLimitRemaining c = 0 then
        (let d = duration_add (time_Until w (rateLimitReset c)) rateLimitResetBuffer in
         if d > 0 then time_Sleep w d else w)
      else w)"

definition get ::
  "(string \<Rightarrow> string + 'a) \<Rightarrow> Client \<Rightarrow> world \<Rightarrow> string \<Rightarrow> (error + 'a) \<times> Client \<times> world"
  where
  "get unmarshal c w url = get_attempts unmarshal c (preemptive_wait c w) url 0"

subsection \<open>The API models and the two endpoints\<close>

text \<open>
  The \<open>float64\<close> fields are only copied from the decoded response to the gauges, never
  computed with: their type is the parameter \<open>'f\<close>.
\<close>

record Assignee =
  Login :: string

record CopilotSeat =
  Assignee :: Assignee

record SeatsResponse =
  TotalSeats :: int
  Seats :: "CopilotSeat list"

record 'f UsageItem =
  Product :: string
  SKU :: string
  Model :: string
  UnitType :: string
  PricePerUnit :: 'f
  GrossQuantity :: 'f
  GrossAmount :: 'f
  DiscountQuantity :: 'f
  DiscountAmount :: 'f
  NetQuantity :: 'f
  NetAmount :: 'f

record 'f UsageResponse =
  Enterprise :: string
  User :: string
  UsageItems :: "'f UsageItem list"

definition apiBase :: string where
  "apiBase = ''https://api.github.com''"

text \<open>The verb \<open>%d\<close> of \<open>fmt.Sprintf\<close>: an integer in decimal.\<close>

fun fmt_nat :: "nat \<Rightarrow> string" where
  "fmt_nat n =
     (if n < 10 then [''0123456789'' ! n]
      else fmt_nat (n div 10) @ [''0123456789'' ! (n mod 10)])"

declare fmt_nat.simps [simp del]

definition fmt_d :: "int \<Rightarrow> string" where
  "fmt_d i = (if i < 0 then CHR ''-'' # fmt_nat (nat (- i)) else fmt_nat (nat i))"

definition seats_url :: "string \<Rightarrow> int \<Rightarrow> int \<Rightarrow> string" where
  "seats_url enterprise perPage page =
     apiBase @ ''/enterprises/'' @ enterprise @ ''/copilot/billing/seats?per_page=''
       @ fmt_d perPage @ ''&page='' @ fmt_d page"

definition usage_url :: "string \<Rightarrow> string \<Rightarrow> string" where
  "usage_url enterprise user =
     apiBase @ ''/enterprises/'' @ enterprise
       @ ''/settings/billing/premium_request/usage?user='' @ user"

definition perPage :: int where
  "perPage = 100"

text \<open>
  The loop \<open>for { ... }\<close> of \<open>ListCopilotSeats\<close> has no bound: it ends when a page is
  shorter than \<open>perPage\<close> or a request fails. \<open>None\<close> is the loop that never ends.
  The page number is an \<open>int\<close> without a bound: Go's would wrap only after \<open>2 ^ 63\<close>
  pages.
\<close>

partial_function (option) ListCopilotSeats_loop ::
  "(string \<Rightarrow> string + SeatsResponse) \<Rightarrow> Client \<Rightarrow> world \<Rightarrow> string \<Rightarrow> string list \<Rightarrow> int
     \<Rightarrow> ((error + string list) \<times> Client \<times> world) option"
  where
  "ListCopilotSeats_loop unmarshal c w enterprise logins page =
     (case get unmarshal c w (seats_url enterprise perPage page) of
        (Inl err, c', w') \<Rightarrow> Some (Inl (Wrapped (ListingSeatsPage page) err), c', w')
      | (Inr resp, c', w') \<Rightarrow>
          (let logins' = logins @ map (\<lambda>seat. Login (Assignee seat)) (Seats resp) in
           if int (length (Seats resp)) < perPage then Some (Inr logins', c', w')
           else ListCopilotSeats_loop unmarshal c' w' enterprise logins' (page + 1)))"

definition ListCopilotSeats ::
  "(string \<Rightarrow> string + SeatsResponse) \<Rightarrow> Client \<Rightarrow> world \<Rightarrow> string
     \<Rightarrow> ((error + string list) \<times> Client \<times> world) option"
  where
  "ListCopilotSeats unmarshal c w enterprise =
     ListCopilotSeats_loop unmarshal c w enterprise [] 1"

definition GetUserPremiumUsage ::
  "(string \<Rightarrow> string + 'f UsageResponse) \<Rightarrow> Client \<Rightarrow> world \<Rightarrow> string \<Rightarrow> string
     \<Rightarrow> (error + 'f UsageResponse) \<times> Client \<times> world"
  where
  "GetUserPremiumUsage unmarshal c w enterprise user =
     (case get unmarshal c w (usage_url enterprise user) of
        (Inl err, c', w') \<Rightarrow> (Inl (Wrapped (GettingUsageForUser user) err), c', w')
      | (Inr resp, c', w') \<Rightarrow> (Inr resp, c', w'))"

subsection \<open>The gauges and \<open>collect\<close>\<close>

text \<open>
  Package \<open>internal\<close> declares three gauge vectors over the labels \<open>user\<close>, \<open>sku\<close>,
  \<open>model\<close> and \<open>enterprise\<close>. A vector holds one value for each label set it was given;
  \<open>Reset\<close> empties it and \<open>With(labels).Set(v)\<close> stores \<open>v\<close> under \<open>labels\<close>. Label
  sets are written in the order of the literal in \<open>collect\<close>, and their values are taken
  to be ones the registry accepts (\<open>With\<close> panics on a value that is not valid UTF-8).
  \<open>performed\<close> records the operations on the vectors, in order.
\<close>

type_synonym Labels = "(string \<times> string) list"

datatype gauge = RequestAmount | RequestCostGross | RequestCostDiscount

datatype 'f gauge_op = Reset gauge | SetValue gauge Labels 'f

record 'f metrics =
  gauges :: "gauge \<Rightarrow> Labels \<rightharpoonup> 'f"
  performed :: "'f gauge_op list"

fun apply_op :: "(gauge \<Rightarrow> Labels \<rightharpoonup> 'f) \<Rightarrow> 'f gauge_op \<Rightarrow> (gauge \<Rightarrow> Labels \<rightharpoonup> 'f)" where
  "apply_op gs (Reset g) = gs(g := Map.empty)"
| "apply_op gs (SetValue g l v) = gs(g := (gs g)(l \<mapsto> v))"

definition perform :: "'f metrics \<Rightarrow> 'f gauge_op \<Rightarrow> 'f metrics" where
  "perform m opn = \<lparr>gauges = apply_op (gauges m) opn, performed = performed m @ [opn]\<rparr>"

record 'f metricEntry =
  labels :: Labels
  grossQuantity :: 'f
  grossAmount :: 'f
  discountAmount :: 'f

definition entry_of :: "string \<Rightarrow> string \<Rightarrow> 'f UsageItem \<Rightarrow> 'f metricEntry" where
  "entry_of enterprise login item =
     \<lparr>labels = [(''user'', login), (''sku'', SKU item), (''model'', Model item),
                (''enterprise'', enterprise)],
      grossQuantity = GrossQuantity item,
      grossAmount = GrossAmount item,
      discountAmount = DiscountAmount item\<rparr>"

text \<open>The loop over the logins: a user whose usage cannot be fetched is skipped.\<close>

fun collect_entries ::
  "(string \<Rightarrow> string + 'f UsageResponse) \<Rightarrow> Client \<Rightarrow> world \<Rightarrow> string \<Rightarrow> string list
     \<Rightarrow> 'f metricEntry list \<Rightarrow> 'f metricEntry list \<times> Client \<times> world"
  where
  "collect_entries unmarshal c w enterprise [] entries = (entries, c, w)"
| "collect_entries unmarshal c w enterprise (login # logins) entries =
     (case GetUserPremiumUsage unmarshal c w enterprise login of
        (Inl err, c', w') \<Rightarrow> collect_entries unmarshal c' w' enterprise logins entries
      | (Inr usage, c', w') \<Rightarrow>
          collect_entries unmarshal c' w' enterprise logins
            (entries @ map (entry_of enterprise login) (UsageItems usage)))"

text \<open>The part of \<open>collect\<close> that runs with \<open>collectMu\<close> held.\<close>

definition reset_gauges :: "'f metrics \<Rightarrow> 'f metrics" where
  "reset_gauges m =
     perform (perform (perform m (Reset RequestAmount)) (Reset RequestCostGross))
       (Reset RequestCostDiscount)"

fun set_gauges :: "'f metrics \<Rightarrow> 'f metricEntry list \<Rightarrow> 'f metrics" where
  "set_gauges m [] = m"
| "set_gauges m (e # es) =
     set_gauges
       (perform
          (perform
             (perform m (SetValue RequestAmount (labels e) (grossQuantity e)))
             (SetValue RequestCostGross (labels e) (grossAmount e)))
          (SetValue RequestCostDiscount (labels e) (discountAmount e)))
       es"

definition publish :: "'f metrics \<Rightarrow> 'f metricEntry list \<Rightarrow> 'f metrics" where
  "publish m entries = set_gauges (reset_gauges m) entries"

text \<open>
  \<open>collect\<close> returns its error (\<open>None\<close> for \<open>nil\<close>) with the client, the world and the
  gauges as it leaves them; the outer \<open>None\<close> is a seat listing that never ends.
\<close>

definition collect ::
  "(string \<Rightarrow> string + SeatsResponse) \<Rightarrow> (string \<Rightarrow> string + 'f UsageResponse)
     \<Rightarrow> Client \<Rightarrow> world \<Rightarrow> 'f metrics \<Rightarrow> string
     \<Rightarrow> (error option \<times> Client \<times> world \<times> 'f metrics) option"
  where
  "collect unmarshalSeats unmarshalUsage client w m enterprise =
     (case ListCopilotSeats unmarshalSeats client w enterprise of
        None \<Rightarrow> None
      | Some (Inl err, c', w') \<Rightarrow> Some (Some (Wrapped ListingSeats err), c', w', m)
      | Some (Inr logins, c', w') \<Rightarrow>
          (case collect_entries unmarshalUsage c' w' enterprise logins [] of
             (entries, c'', w'') \<Rightarrow> Some (None, c'', w'', publish m entries)))"

subsection \<open>Configuration\<close>

text \<open>
  The nested struct \<open>Github\<close> is flattened into two fields. \<open>envconfig.Process\<close> is a
  library: it is the parameter \<open>process\<close>, which takes the prefix and the zero-valued
  \<open>Config\<close> and returns the \<open>Config\<close> as it leaves it with its error, if any.
\<close>

record Config =
  LogLevel :: string
  LogDebug :: bool
  WorkerInterval :: int
  Github_Token :: string
  Github_Enterprise :: string

definition appConfPrefix :: string where
  "appConfPrefix = ''CPUE''"

definition zero_Config :: Config where
  "zero_Config =
     \<lparr>LogLevel = '''', LogDebug = False, WorkerInterval = 0,
      Github_Token = '''', Github_Enterprise = ''''\<rparr>"

definition Load :: "(string \<Rightarrow> Config \<Rightarrow> Config \<times> string option) \<Rightarrow> Config \<times> string option" where
  "Load process =
     (case process appConfPrefix zero_Config of
        (conf, err) \<Rightarrow>
          (let conf1 = (if LogLevel conf = '''' then conf\<lparr>LogLevel := ''info''\<rparr> else conf);
               conf2 = (if WorkerInterval conf1 = 0 then conf1\<lparr>WorkerInterval := 3600\<rparr>
                        else conf1)
           in (conf2, err)))"

subsection \<open>Vocabulary for the properties\<close>

text \<open>
  The request \<open>get\<close> builds for a URL, and the two kinds of response that \<open>get\<close>
  treats as a rate limit.
\<close>

definition new_request :: "Client \<Rightarrow> string \<Rightarrow> Request" where
  "new_request c url = setHeaders c \<lparr>req_URL = url, req_Header = []\<rparr>"

definition secondary_limited :: "Response \<Rightarrow> bool" where
  "secondary_limited resp = (StatusCode resp = 429)"

definition primary_limited :: "Response \<Rightarrow> bool" where
  "primary_limited resp =
     (StatusCode resp = 403 \<and> header_Get (Header resp) ''X-RateLimit-Remaining'' = ''0'')"

text \<open>
  A world for examples: the network given, every URL well-formed, the clock at the time
  given, nothing sent and no sleep yet.
\<close>

definition world_at :: "Time \<Rightarrow> (Request list \<Rightarrow> string + Response) \<Rightarrow> world" where
  "world_at t server = \<lparr>net = server, bad_url = (\<lambda>url. None), now = t, sent = [], slept = []\<rparr>"

text \<open>
  The logins of a page, the requests for \<open>k\<close> pages of seats from page \<open>page\<close> on, and a
  network that serves the pages given, in order, from page \<open>page\<close> on: each request, sent
  after the requests \<open>prior\<close>, is answered with status 200 and a body that decodes to the
  page.
\<close>

definition seat_logins :: "SeatsResponse \<Rightarrow> string list" where
  "seat_logins resp = map (\<lambda>seat. Login (Assignee seat)) (Seats resp)"

fun page_requests :: "Client \<Rightarrow> string \<Rightarrow> int \<Rightarrow> nat \<Rightarrow> Request list" where
  "page_requests c enterprise page 0 = []"
| "page_requests c enterprise page (Suc k) =
     new_request c (seats_url enterprise perPage page)
       # page_requests c enterprise (page + 1) k"

fun pages_served ::
  "(string \<Rightarrow> string + SeatsResponse) \<Rightarrow> Client \<Rightarrow> world \<Rightarrow> string \<Rightarrow> Request list \<Rightarrow> int
     \<Rightarrow> SeatsResponse list \<Rightarrow> bool"
  where
  "pages_served unmarshal c w enterprise prior page [] = True"
| "pages_served unmarshal c w enterprise prior page (p # ps) =
     (bad_url w (seats_url enterprise perPage page) = None
      \<and> (case net w (prior @ [new_request c (seats_url enterprise perPage page)]) of
           Inl msg \<Rightarrow> False
         | Inr resp \<Rightarrow>
             StatusCode resp = 200 \<and> json_Decode unmarshal (Body resp) = Inr p)
      \<and> pages_served unmarshal c w enterprise
           (prior @ [new_request c (seats_url enterprise perPage page)]) (page + 1) ps)"

text \<open>
  For examples: a response with status 200 and the body given, and a decoder for seat
  pages that reads one seat for each byte after the first, that byte being its login.
\<close>

definition ok_response :: "string \<Rightarrow> Response" where
  "ok_response body = \<lparr>StatusCode = 200, Header = [], Body = body\<rparr>"

definition seats_of_bytes :: "string \<Rightarrow> string + SeatsResponse" where
  "seats_of_bytes body =
     Inr \<lparr>TotalSeats = int (length (tl body)),
          Seats = map (\<lambda>ch. \<lparr>Assignee = \<lparr>Login = [ch]\<rparr>\<rparr>) (tl body)\<rparr>"

text \<open>
  The outcomes of the calls of \<open>GetUserPremiumUsage\<close> that \<open>collect\<close> makes for a list of
  logins, in order, each call starting from the client and the world the one before left,
  and the observations one outcome stands for: none for a failed fetch, one for each usage
  item of a successful one.
\<close>

fun usage_fetches ::
  "(string \<Rightarrow> string + 'f UsageResponse) \<Rightarrow> Client \<Rightarrow> world \<Rightarrow> string \<Rightarrow> string list
     \<Rightarrow> (string \<times> (error + 'f UsageResponse)) list"
  where
  "usage_fetches unmarshal c w enterprise [] = []"
| "usage_fetches unmarshal c w enterprise (login # logins) =
     (case GetUserPremiumUsage unmarshal c w enterprise login of
        (r, c', w') \<Rightarrow> (login, r) # usage_fetches unmarshal c' w' enterprise logins)"

fun observations :: "string \<Rightarrow> string \<times> (error + 'f UsageResponse) \<Rightarrow> 'f metricEntry list" where
  "observations enterprise (login, Inl err) = []"
| "observations enterprise (login, Inr usage) =
     map (entry_of enterprise login) (UsageItems usage)"

text \<open>
  For examples: gauges with no series and no operation performed, and a decoder for usage
  responses that reads one usage item, whose SKU is the body and whose numbers are written
  as text.
\<close>

definition no_metrics :: "'f metrics" where
  "no_metrics = \<lparr>gauges = (\<lambda>g. Map.empty), performed = []\<rparr>"

definition usage_of_bytes :: "string \<Rightarrow> string + string UsageResponse" where
  "usage_of_bytes body =
     Inr \<lparr>Enterprise = ''acme'', User = '''',
          UsageItems =
            [\<lparr>Product = ''Copilot'', SKU = body, Model = ''m'', UnitType = ''requests'',
              PricePerUnit = ''0.04'', GrossQuantity = ''3'', GrossAmount = ''0.12'',
              DiscountQuantity = ''1'', DiscountAmount = ''0.04'',
              NetQuantity = ''2'', NetAmount = ''0.08''\<rparr>]\<rparr>"

text \<open>
  For examples: a network that answers the first request with one page of the three seats
  \<open>A\<close>, \<open>B\<close> and \<open>C\<close>, fails the usage request for \<open>B\<close> with status 500 and answers every
  other request with a usage body; and one that answers every request with status 429.
\<close>

definition server_failing_B :: "Request list \<Rightarrow> string + Response" where
  "server_failing_B reqs =
     (if length reqs = 1 then Inr (ok_response ''[ABC'')
      else if req_URL (last reqs) = usage_url ''acme'' ''B''
      then Inr \<lparr>StatusCode = 500, Header = [], Body = ''''\<rparr>
      else Inr (ok_response ''copilot_premium_request''))"

definition server_always_429 :: "Request list \<Rightarrow> string + Response" where
  "server_always_429 reqs =
     Inr \<lparr>StatusCode = 429, Header = [(''Retry-After'', [''1''])], Body = ''''\<rparr>"

subsection \<open>The worker and the scrapes, interleaved\<close>

text \<open>
  \<open>collect\<close> publishes with \<open>collectMu\<close> locked for writing, and the handler of
  \<open>/metrics\<close> serves a scrape with \<open>collectMu\<close> locked for reading. A
  \<open>sync.RWMutex\<close> is held by one writer or by any number of readers: \<open>Lock\<close> waits while
  anyone holds it and \<open>RLock\<close> waits while a writer holds it (\<open>None\<close> is a call that
  cannot proceed yet), and unlocking a mutex that is not locked is a fatal error
  (\<open>None\<close> as well).
\<close>

record rwmutex =
  writing :: bool
  reading :: nat

definition rw_Lock :: "rwmutex \<Rightarrow> rwmutex option" where
  "rw_Lock mu = (if \<not> writing mu \<and> reading mu = 0 then Some (mu\<lparr>writing := True\<rparr>) else None)"

definition rw_Unlock :: "rwmutex \<Rightarrow> rwmutex option" where
  "rw_Unlock mu = (if writing mu then Some (mu\<lparr>writing := False\<rparr>) else None)"

definition rw_RLock :: "rwmutex \<Rightarrow> rwmutex option" where
  "rw_RLock mu = (if \<not> writing mu then Some (mu\<lparr>reading := reading mu + 1\<rparr>) else None)"

definition rw_RUnlock :: "rwmutex \<Rightarrow> rwmutex option" where
  "rw_RUnlock mu = (if 0 < reading mu then Some (mu\<lparr>reading := reading mu - 1\<rparr>) else None)"

text \<open>
  The operations \<open>collect\<close> performs on the gauges between \<open>Lock\<close> and \<open>Unlock\<close>, one
  after the other.
\<close>

fun set_ops :: "'f metricEntry list \<Rightarrow> 'f gauge_op list" where
  "set_ops [] = []"
| "set_ops (e # es) =
     SetValue RequestAmount (labels e) (grossQuantity e)
       # SetValue RequestCostGross (labels e) (grossAmount e)
       # SetValue RequestCostDiscount (labels e) (discountAmount e)
       # set_ops es"

definition publish_ops :: "'f metricEntry list \<Rightarrow> 'f gauge_op list" where
  "publish_ops entries =
     Reset RequestAmount # Reset RequestCostGross # Reset RequestCostDiscount # set_ops entries"

text \<open>
  The worker has collected its entries and is about to lock, or holds the lock with the
  operations given still to perform, or has unlocked and returned. A scrape has arrived, or
  holds the read lock and has gathered the vectors listed so far, or has been served with
  what it gathered. One step of the process is a step of the worker or, for the scrape with
  the index given, its \<open>RLock\<close>, the gathering of one vector, or its \<open>RUnlock\<close>.
\<close>

datatype 'f worker = Collected "'f metricEntry list" | Publishing "'f gauge_op list" | Returned

datatype 'f scrape =
    Arrived
  | Serving "(gauge \<times> (Labels \<rightharpoonup> 'f)) list"
  | Served "(gauge \<times> (Labels \<rightharpoonup> 'f)) list"

record 'f process =
  collectMu :: rwmutex
  the_worker :: "'f worker"
  scrapes :: "'f scrape list"
  vecs :: "gauge \<Rightarrow> Labels \<rightharpoonup> 'f"

datatype action = WorkerStep | ScrapeRLock nat | ScrapeGather nat gauge | ScrapeRUnlock nat

fun worker_step :: "'f process \<Rightarrow> 'f process option" where
  "worker_step p =
     (case the_worker p of
        Collected entries \<Rightarrow>
          (case rw_Lock (collectMu p) of
             None \<Rightarrow> None
           | Some mu \<Rightarrow> Some (p\<lparr>collectMu := mu, the_worker := Publishing (publish_ops entries)\<rparr>))
      | Publishing [] \<Rightarrow>
          (case rw_Unlock (collectMu p) of
             None \<Rightarrow> None
           | Some mu \<Rightarrow> Some (p\<lparr>collectMu := mu, the_worker := Returned\<rparr>))
      | Publishing (opn # ops) \<Rightarrow>
          Some (p\<lparr>vecs := apply_op (vecs p) opn, the_worker := Publishing ops\<rparr>)
      | Returned \<Rightarrow> None)"

fun step :: "action \<Rightarrow> 'f process \<Rightarrow> 'f process option" where
  "step WorkerStep p = worker_step p"
| "step (ScrapeRLock i) p =
     (if i < length (scrapes p) then
        (case scrapes p ! i of
           Arrived \<Rightarrow>
             (case rw_RLock (collectMu p) of
                None \<Rightarrow> None
              | Some mu \<Rightarrow> Some (p\<lparr>collectMu := mu, scrapes := (scrapes p)[i := Serving []]\<rparr>))
         | Serving seen \<Rightarrow> None
         | Served seen \<Rightarrow> None)
      else None)"
| "step (ScrapeGather i g) p =
     (if i < length (scrapes p) then
        (case scrapes p ! i of
           Arrived \<Rightarrow> None
         | Serving seen \<Rightarrow>
             Some (p\<lparr>scrapes := (scrapes p)[i := Serving (seen @ [(g, vecs p g)])]\<rparr>)
         | Served seen \<Rightarrow> None)
      else None)"
| "step (ScrapeRUnlock i) p =
     (if i < length (scrapes p) then
        (case scrapes p ! i of
           Arrived \<Rightarrow> None
         | Serving seen \<Rightarrow>
             (case rw_RUnlock (collectMu p) of
                None \<Rightarrow> None
              | Some mu \<Rightarrow> Some (p\<lparr>collectMu := mu, scrapes := (scrapes p)[i := Served seen]\<rparr>))
         | Served seen \<Rightarrow> None)
      else None)"

text \<open>
  An interleaving is a list of actions; \<open>run\<close> is \<open>None\<close> for a list that asks for a
  step that cannot be taken.
\<close>

fun run :: "action list \<Rightarrow> 'f process \<Rightarrow> 'f process option" where
  "run [] p = Some p"
| "run (a # as) p = (case step a p of None \<Rightarrow> None | Some p' \<Rightarrow> run as p')"

text \<open>
  The start: the mutex free, the worker with its entries, \<open>n\<close> scrapes arrived, the
  vectors as the metrics given have them.
\<close>

definition start :: "'f metrics \<Rightarrow> 'f metricEntry list \<Rightarrow> nat \<Rightarrow> 'f process" where
  "start m entries n =
     \<lparr>collectMu = \<lparr>writing = False, reading = 0\<rparr>, the_worker = Collected entries,
      scrapes = replicate n Arrived, vecs = gauges m\<rparr>"

text \<open>
  What a scrape gathered, and a scrape that saw one snapshot: every vector it gathered is
  the old one, or every vector it gathered is the new one.
\<close>

fun gathered :: "'f scrape \<Rightarrow> (gauge \<times> (Labels \<rightharpoonup> 'f)) list" where
  "gathered Arrived = []"
| "gathered (Serving seen) = seen"
| "gathered (Served seen) = seen"

definition agrees :: "(gauge \<Rightarrow> Labels \<rightharpoonup> 'f) \<Rightarrow> (gauge \<times> (Labels \<rightharpoonup> 'f)) list \<Rightarrow> bool" where
  "agrees gs seen = list_all (\<lambda>(g, v). v = gs g) seen"

definition sees_one_snapshot ::
  "(gauge \<Rightarrow> Labels \<rightharpoonup> 'f) \<Rightarrow> (gauge \<Rightarrow> Labels \<rightharpoonup> 'f) \<Rightarrow> 'f scrape \<Rightarrow> bool"
  where
  "sees_one_snapshot old new sc = (agrees old (gathered sc) \<or> agrees new (gathered sc))"

text \<open>The invariant of the interleaved process.\<close>

fun is_serving :: "'f scrape \<Rightarrow> bool" where
  "is_serving (Serving seen) = True"
| "is_serving sc = False"

fun scrape_ok ::
  "(gauge \<Rightarrow> Labels \<rightharpoonup> 'f) \<Rightarrow> (gauge \<Rightarrow> Labels \<rightharpoonup> 'f) \<Rightarrow> (gauge \<Rightarrow> Labels \<rightharpoonup> 'f)
     \<Rightarrow> 'f scrape \<Rightarrow> bool"
  where
  "scrape_ok old new cur Arrived = True"
| "scrape_ok old new cur (Serving seen) = agrees cur seen"
| "scrape_ok old new cur (Served seen) = (agrees old seen \<or> agrees new seen)"

fun worker_ok ::
  "(gauge \<Rightarrow> Labels \<rightharpoonup> 'f) \<Rightarrow> (gauge \<Rightarrow> Labels \<rightharpoonup> 'f) \<Rightarrow> 'f process \<Rightarrow> 'f worker \<Rightarrow> bool"
  where
  "worker_ok old new p (Collected entries) =
     (\<not> writing (collectMu p) \<and> vecs p = old \<and> foldl apply_op old (publish_ops entries) = new)"
| "worker_ok old new p (Publishing ops) =
     (writing (collectMu p) \<and> reading (collectMu p) = 0 \<and> foldl apply_op (vecs p) ops = new)"
| "worker_ok old new p Returned = (\<not> writing (collectMu p) \<and> vecs p = new)"

definition publish_inv ::
  "(gauge \<Rightarrow> Labels \<rightharpoonup> 'f) \<Rightarrow> (gauge \<Rightarrow> Labels \<rightharpoonup> 'f) \<Rightarrow> 'f process \<Rightarrow> bool"
  where
  "publish_inv old new p =
     (worker_ok old new p (the_worker p)
      \<and> reading (collectMu p) = length (filter is_serving (scrapes p))
      \<and> list_all (scrape_ok old new (vecs p)) (scrapes p))"

section \<open>Properties\<close>

subsection \<open>Configuration defaults\<close>

text \<open>
  Claim C10. \<open>Load\<close> returns \<open>WorkerInterval\<close> 3600 whenever the environment processing
  leaves that field 0, which is the case both when the variable is unset (the field of the
  zero-valued \<open>Config\<close> is not touched) and when it is set to 0. The defaults for
  \<open>WorkerInterval\<close> and for \<open>LogLevel\<close> are applied whether or not the processing
  returned an error, and that error is returned unchanged next to the defaulted \<open>Config\<close>;
  the other fields are the ones the processing left.
\<close>

theorem Load_applies_defaults:
  assumes "process appConfPrefix zero_Config = (conf, err)"
  shows "snd (Load process) = err
       \<and> (WorkerInterval conf = 0 \<longrightarrow> WorkerInterval (fst (Load process)) = 3600)
       \<and> (WorkerInterval conf \<noteq> 0 \<longrightarrow>
            WorkerInterval (fst (Load process)) = WorkerInterval conf)
       \<and> (LogLevel conf = '''' \<longrightarrow> LogLevel (fst (Load process)) = ''info'')
       \<and> (LogLevel conf \<noteq> '''' \<longrightarrow> LogLevel (fst (Load process)) = LogLevel conf)
       \<and> LogDebug (fst (Load process)) = LogDebug conf
       \<and> Github_Token (fst (Load process)) = Github_Token conf
       \<and> Github_Enterprise (fst (Load process)) = Github_Enterprise conf"
  using assms by (simp add: Load_def Let_def)

text \<open>
  An environment with nothing set whose processing fails, and one that sets the interval
  to 0 and the log level to \<open>debug\<close>.
\<close>

theorem Load_applies_defaults_witness:
  "Load (\<lambda>prefix conf. (conf, Some ''required key missing'')) =
     (zero_Config\<lparr>LogLevel := ''info'', WorkerInterval := 3600\<rparr>, Some ''required key missing'')
   \<and> Load (\<lambda>prefix conf. (conf\<lparr>WorkerInterval := 0, LogLevel := ''debug''\<rparr>, None)) =
     (zero_Config\<lparr>LogLevel := ''debug'', WorkerInterval := 3600\<rparr>, None)"
proof -
  let ?unset = "\<lambda>(prefix :: string) (conf :: Config). (conf, Some ''required key missing'')"
  let ?zero = "\<lambda>(prefix :: string) (conf :: Config).
                 (conf\<lparr>WorkerInterval := 0, LogLevel := ''debug''\<rparr>, None :: string option)"
  show ?thesis
    using Load_applies_defaults [of ?unset zero_Config "Some ''required key missing''"]
      Load_applies_defaults
        [of ?zero "zero_Config\<lparr>WorkerInterval := 0, LogLevel := ''debug''\<rparr>" None]
    by (simp add: zero_Config_def prod_eq_iff)
qed

subsection \<open>Evaluation and frame lemmas\<close>

lemmas eval_parse = strconv_Atoi_def strconv_ParseInt_def strconv_ParseUint_def digit_value_def

lemmas eval_get = get_def preemptive_wait_def get_attempts.simps maxRetries_def
  http_NewRequest_def http_Do_def world_at_def setHeaders_def new_request_def header_Set_def
  sleepSecondaryRateLimit_def sleepPrimaryRateLimit_def header_Get_def json_Decode_def
  updateRateLimit_def
  duration_mul_def duration_add_def time_Second_def wrap64_def time_Sleep_def time_Until_def
  time_Sub_def time_Unix_def maxDuration_def minDuration_def defaultFallbackSleep_def
  rateLimitResetBuffer_def Let_def

lemma strconv_ParseInt_empty: "strconv_ParseInt [] = None"
  by (simp add: strconv_ParseInt_def)

lemma time_Sleep_fields:
  "net (time_Sleep w d) = net w"
  "bad_url (time_Sleep w d) = bad_url w"
  "sent (time_Sleep w d) = sent w"
  "slept (time_Sleep w d) = slept w @ [d]"
  "now (time_Sleep w d) = now w + max 0 d"
  by (simp_all add: time_Sleep_def)

lemma sleepSecondaryRateLimit_frame:
  "net (snd (sleepSecondaryRateLimit w resp)) = net w"
  "bad_url (snd (sleepSecondaryRateLimit w resp)) = bad_url w"
  "sent (snd (sleepSecondaryRateLimit w resp)) = sent w"
  by (simp_all add: sleepSecondaryRateLimit_def Let_def time_Sleep_fields split: option.splits)

lemma sleepPrimaryRateLimit_frame:
  "net (snd (sleepPrimaryRateLimit w resp)) = net w"
  "bad_url (snd (sleepPrimaryRateLimit w resp)) = bad_url w"
  "sent (snd (sleepPrimaryRateLimit w resp)) = sent w"
  by (simp_all add: sleepPrimaryRateLimit_def Let_def time_Sleep_fields split: option.splits)

lemma preemptive_wait_frame:
  "net (preemptive_wait c w) = net w"
  "bad_url (preemptive_wait c w) = bad_url w"
  "sent (preemptive_wait c w) = sent w"
  by (simp_all add: preemptive_wait_def Let_def time_Sleep_fields)

lemma preemptive_wait_unknown:
  "rateLimitRemaining c \<noteq> 0 \<Longrightarrow> preemptive_wait c w = w"
  by (simp add: preemptive_wait_def)

subsection \<open>One attempt of \<open>get\<close>, by the response it receives\<close>

lemma get_attempts_200:
  assumes "attempt < maxRetries" and "bad_url w url = None"
    and "net w (sent w @ [new_request c url]) = Inr resp" and "StatusCode resp = 200"
  shows "get_attempts unmarshal c w url attempt =
           (json_Decode unmarshal (Body resp), updateRateLimit c resp,
            w\<lparr>sent := sent w @ [new_request c url]\<rparr>)"
  using assms
  by (subst get_attempts.simps) (simp add: http_NewRequest_def http_Do_def new_request_def)

lemma get_attempts_429:
  assumes "attempt < maxRetries" and "bad_url w url = None"
    and "net w (sent w @ [new_request c url]) = Inr resp" and "secondary_limited resp"
  shows "get_attempts unmarshal c w url attempt =
           (let w2 = snd (sleepSecondaryRateLimit (w\<lparr>sent := sent w @ [new_request c url]\<rparr>) resp)
            in if attempt + 1 = maxRetries
               then (Inl (SecondaryRateLimited url (int maxRetries)), c, w2)
               else get_attempts unmarshal c w2 url (attempt + 1))"
  using assms
  by (subst get_attempts.simps)
    (auto simp add: http_NewRequest_def http_Do_def new_request_def Let_def
      secondary_limited_def split: prod.splits)

lemma get_attempts_403_primary:
  assumes "attempt < maxRetries" and "bad_url w url = None"
    and "net w (sent w @ [new_request c url]) = Inr resp" and "primary_limited resp"
  shows "get_attempts unmarshal c w url attempt =
           (let w2 = snd (sleepPrimaryRateLimit (w\<lparr>sent := sent w @ [new_request c url]\<rparr>) resp)
            in if attempt + 1 = maxRetries
               then (Inl (PrimaryRateLimited url (int maxRetries)), c, w2)
               else get_attempts unmarshal c w2 url (attempt + 1))"
  using assms
  by (subst get_attempts.simps)
    (auto simp add: http_NewRequest_def http_Do_def new_request_def Let_def
      primary_limited_def split: prod.splits)

lemma get_attempts_fail_fast:
  assumes "attempt < maxRetries" and "bad_url w url = None"
    and "net w (sent w @ [new_request c url]) = Inr resp"
    and "StatusCode resp \<noteq> 200" and "\<not> secondary_limited resp" and "\<not> primary_limited resp"
  shows "get_attempts unmarshal c w url attempt =
           (Inl (UnexpectedStatus (StatusCode resp) url), c,
            w\<lparr>sent := sent w @ [new_request c url]\<rparr>)"
  using assms
  by (subst get_attempts.simps)
    (auto simp add: http_NewRequest_def http_Do_def new_request_def Let_def
      primary_limited_def secondary_limited_def split: prod.splits)

lemma get_attempts_not_exceeded:
  "attempt < maxRetries \<Longrightarrow>
     fst (get_attempts unmarshal c w url attempt) \<noteq> Inl (ExceededMaxRetries u)"
proof (induction unmarshal c w url attempt rule: get_attempts.induct)
  case (1 unmarshal c w url attempt)
  show ?case
    using 1
    by (subst get_attempts.simps)
      (auto simp: Let_def json_Decode_def maxRetries_def http_Do_def http_NewRequest_def
        split: sum.splits prod.splits if_splits option.splits)
qed

lemma updateRateLimit_fields:
  "token (updateRateLimit c resp) = token c"
  "rateLimitRemaining (updateRateLimit c resp) =
     (case strconv_Atoi (header_Get (Header resp) ''X-RateLimit-Remaining'') of
        Some n \<Rightarrow> n | None \<Rightarrow> rateLimitRemaining c)"
  "rateLimitReset (updateRateLimit c resp) =
     (case strconv_ParseInt (header_Get (Header resp) ''X-RateLimit-Reset'') of
        Some unix \<Rightarrow> time_Unix unix | None \<Rightarrow> rateLimitReset c)"
  by (simp_all add: updateRateLimit_def Let_def strconv_Atoi_def strconv_ParseInt_empty
      split: option.splits)

lemma get_attempts_limited:
  assumes "attempt < maxRetries" and "bad_url w url = None"
    and "net w (sent w @ [new_request c url]) = Inr resp"
    and "secondary_limited resp \<or> primary_limited resp"
  shows "\<exists>w2. net w2 = net w \<and> bad_url w2 = bad_url w
           \<and> sent w2 = sent w @ [new_request c url]
           \<and> get_attempts unmarshal c w url attempt =
               (if attempt + 1 = maxRetries
                then (Inl (if secondary_limited resp
                           then SecondaryRateLimited url (int maxRetries)
                           else PrimaryRateLimited url (int maxRetries)), c, w2)
                else get_attempts unmarshal c w2 url (attempt + 1))"
proof (cases "secondary_limited resp")
  case True
  let ?w2 = "snd (sleepSecondaryRateLimit (w\<lparr>sent := sent w @ [new_request c url]\<rparr>) resp)"
  have "get_attempts unmarshal c w url attempt =
          (if attempt + 1 = maxRetries
           then (Inl (SecondaryRateLimited url (int maxRetries)), c, ?w2)
           else get_attempts unmarshal c ?w2 url (attempt + 1))"
    using get_attempts_429 [OF assms(1-3) True, of unmarshal] by (simp add: Let_def)
  then show ?thesis
    using True by (intro exI [of _ ?w2]) (simp add: sleepSecondaryRateLimit_frame)
next
  case False
  then have p: "primary_limited resp" using assms(4) by simp
  let ?w2 = "snd (sleepPrimaryRateLimit (w\<lparr>sent := sent w @ [new_request c url]\<rparr>) resp)"
  have "get_attempts unmarshal c w url attempt =
          (if attempt + 1 = maxRetries
           then (Inl (PrimaryRateLimited url (int maxRetries)), c, ?w2)
           else get_attempts unmarshal c ?w2 url (attempt + 1))"
    using get_attempts_403_primary [OF assms(1-3) p, of unmarshal] by (simp add: Let_def)
  then show ?thesis
    using False by (intro exI [of _ ?w2]) (simp add: sleepPrimaryRateLimit_frame)
qed

lemma get_three_limited:
  assumes "bad_url w url = None"
    and "net w (sent w @ [new_request c url]) = Inr r1"
    and "net w (sent w @ [new_request c url, new_request c url]) = Inr r2"
    and "net w (sent w @ [new_request c url, new_request c url, new_request c url]) = Inr r3"
    and "secondary_limited r1 \<or> primary_limited r1"
    and "secondary_limited r2 \<or> primary_limited r2"
    and "secondary_limited r3 \<or> primary_limited r3"
  shows "fst (get unmarshal c w url) =
           Inl (if secondary_limited r3 then SecondaryRateLimited url 3
                else PrimaryRateLimited url 3)
       \<and> sent (snd (snd (get unmarshal c w url))) =
           sent w @ [new_request c url, new_request c url, new_request c url]"
proof -
  let ?r = "new_request c url"
  let ?w0 = "preemptive_wait c w"
  have w0: "net ?w0 = net w" "bad_url ?w0 = bad_url w" "sent ?w0 = sent w"
    by (simp_all add: preemptive_wait_frame)
  obtain w1 where w1: "net w1 = net w" "bad_url w1 = bad_url w" "sent w1 = sent w @ [?r]"
    and s1: "get_attempts unmarshal c ?w0 url 0 = get_attempts unmarshal c w1 url (Suc 0)"
    using get_attempts_limited [of 0 ?w0 url c r1 unmarshal] assms(1,2,5) w0
    by (auto simp: maxRetries_def)
  obtain w2 where w2: "net w2 = net w" "bad_url w2 = bad_url w" "sent w2 = sent w @ [?r, ?r]"
    and s2: "get_attempts unmarshal c w1 url (Suc 0) =
               get_attempts unmarshal c w2 url (Suc (Suc 0))"
    using get_attempts_limited [of "Suc 0" w1 url c r2 unmarshal] assms(1,3,6) w1
    by (auto simp: maxRetries_def)
  obtain w3 where w3: "sent w3 = sent w @ [?r, ?r, ?r]"
    and s3: "get_attempts unmarshal c w2 url (Suc (Suc 0)) =
               (Inl (if secondary_limited r3 then SecondaryRateLimited url 3
                     else PrimaryRateLimited url 3), c, w3)"
    using get_attempts_limited [of "Suc (Suc 0)" w2 url c r3 unmarshal] assms(1,4,7) w2
    by (auto simp: maxRetries_def)
  show ?thesis
    by (simp add: get_def s1 s2 s3 w3)
qed

subsection \<open>A response with status 200\<close>

text \<open>
  Claim C2, as the code has it. An attempt of \<open>get\<close> that receives a response with status
  200 returns what decoding the body as JSON into the target returns: the decoded value
  and no error when the body decodes, and the decoder's error when it does not (a body with
  no bytes, or one that \<open>unmarshal\<close> rejects). Either way the attempt is the last one: the
  request is the only one it adds, and the client's rate-limit state is updated from the
  response.
\<close>

theorem get_200_returns_decoding:
  assumes "attempt < maxRetries" and "bad_url w url = None"
    and "net w (sent w @ [new_request c url]) = Inr resp" and "StatusCode resp = 200"
  shows "get_attempts unmarshal c w url attempt =
           (json_Decode unmarshal (Body resp), updateRateLimit c resp,
            w\<lparr>sent := sent w @ [new_request c url]\<rparr>)
       \<and> (isl (fst (get_attempts unmarshal c w url attempt)) \<longleftrightarrow>
            Body resp = [] \<or> isl (unmarshal (Body resp)))"
  using get_attempts_200 [OF assms, of unmarshal]
  by (simp add: json_Decode_def split: sum.splits)

text \<open>A body that decodes: the first attempt returns the decoded value.\<close>

theorem get_200_returns_decoding_witness:
  "get_attempts (\<lambda>body. Inr body) (NewClient ''t'')
      (world_at 0 (\<lambda>reqs. Inr \<lparr>StatusCode = 200, Header = [], Body = ''{}''\<rparr>))
      ''https://api.github.com/x'' 0
   = (Inr ''{}'', NewClient ''t'',
      (world_at 0 (\<lambda>reqs. Inr \<lparr>StatusCode = 200, Header = [], Body = ''{}''\<rparr>))
        \<lparr>sent := [new_request (NewClient ''t'') ''https://api.github.com/x'']\<rparr>)"
  using get_200_returns_decoding [of 0
      "world_at 0 (\<lambda>reqs. Inr \<lparr>StatusCode = 200, Header = [], Body = ''{}''\<rparr>)"
      "''https://api.github.com/x''" "NewClient ''t''"
      "\<lparr>StatusCode = 200, Header = [], Body = ''{}''\<rparr>" "\<lambda>body. Inr body"]
  by (simp add: maxRetries_def world_at_def json_Decode_def updateRateLimit_def header_Get_def)

text \<open>
  Claim C2 as stated fails: a response with status 200 and a body with no bytes makes
  \<open>get\<close> return the decoder's error.
\<close>

theorem get_200_decode_error_counterexample:
  "fst (get (\<lambda>body. Inr body) (NewClient ''t'')
          (world_at 0 (\<lambda>reqs. Inr \<lparr>StatusCode = 200, Header = [], Body = ''''\<rparr>))
          ''https://api.github.com/x'')
     = Inl (DecodeError ''EOF'')"
  by (simp add: eval_get NewClient_def)

subsection \<open>The retry budget\<close>

text \<open>
  Claim C3, as the code has it. \<open>get\<close> never fails with the "exceeded max retries" error:
  the statement after the loop is not reached. A call whose three attempts are all answered
  by a rate-limit response (429, or 403 with \<open>X-RateLimit-Remaining: 0\<close>) makes exactly
  three requests and fails at the third with the "secondary rate limited" error when the
  third response is a 429 and with the "primary rate limited" error otherwise, naming the URL.
\<close>

theorem get_budget_exhausted:
  "fst (get unmarshal c w url) \<noteq> Inl (ExceededMaxRetries u)
   \<and> (bad_url w url = None
        \<and> net w (sent w @ [new_request c url]) = Inr r1
        \<and> net w (sent w @ [new_request c url, new_request c url]) = Inr r2
        \<and> net w (sent w @ [new_request c url, new_request c url, new_request c url]) = Inr r3
        \<and> (secondary_limited r1 \<or> primary_limited r1)
        \<and> (secondary_limited r2 \<or> primary_limited r2)
        \<and> (secondary_limited r3 \<or> primary_limited r3)
      \<longrightarrow> fst (get unmarshal c w url) =
            Inl (if secondary_limited r3 then SecondaryRateLimited url 3
                 else PrimaryRateLimited url 3)
          \<and> sent (snd (snd (get unmarshal c w url))) =
              sent w @ [new_request c url, new_request c url, new_request c url])"
proof -
  have "fst (get unmarshal c w url) \<noteq> Inl (ExceededMaxRetries u)"
    unfolding get_def by (rule get_attempts_not_exceeded) (simp add: maxRetries_def)
  then show ?thesis
    using get_three_limited [of w url c r1 r2 r3 unmarshal] by blast
qed

text \<open>Two 429 responses and then a 403 with no quota left.\<close>

theorem get_budget_exhausted_witness:
  "fst (get (\<lambda>body. Inr body) (NewClient ''t'')
          (world_at 0 (\<lambda>reqs. if length reqs < 3
               then Inr \<lparr>StatusCode = 429, Header = [], Body = ''''\<rparr>
               else Inr \<lparr>StatusCode = 403, Header = [(''X-RateLimit-Remaining'', [''0''])],
                         Body = ''''\<rparr>))
          ''https://api.github.com/x'')
     = Inl (PrimaryRateLimited ''https://api.github.com/x'' 3)"
  using get_budget_exhausted [of "\<lambda>body. Inr body" "NewClient ''t''"
      "world_at 0 (\<lambda>reqs. if length reqs < 3
               then Inr \<lparr>StatusCode = 429, Header = [], Body = ''''\<rparr>
               else Inr \<lparr>StatusCode = 403, Header = [(''X-RateLimit-Remaining'', [''0''])],
                         Body = ''''\<rparr>)"
      "''https://api.github.com/x''" "''https://api.github.com/x''"
      "\<lparr>StatusCode = 429, Header = [], Body = ''''\<rparr>"
      "\<lparr>StatusCode = 429, Header = [], Body = ''''\<rparr>"
      "\<lparr>StatusCode = 403, Header = [(''X-RateLimit-Remaining'', [''0''])], Body = ''''\<rparr>"]
  by (simp add: world_at_def secondary_limited_def primary_limited_def header_Get_def)

text \<open>
  Claim C3 as stated fails: three 429 responses use up the three attempts without the
  request resolving, and the error is "secondary rate limited", not "exceeded max retries".
\<close>

theorem get_three_429_counterexample:
  "(case get (\<lambda>body. Inr body) (NewClient ''t'')
          (world_at 0 (\<lambda>reqs. Inr \<lparr>StatusCode = 429, Header = [(''Retry-After'', [''1''])],
                                    Body = ''''\<rparr>))
          ''https://api.github.com/x'' of
      (r, c, w) \<Rightarrow> r = Inl (SecondaryRateLimited ''https://api.github.com/x'' 3)
            \<and> r \<noteq> Inl (ExceededMaxRetries ''https://api.github.com/x'')
            \<and> length (sent w) = 3 \<and> slept w = [1000000000, 1000000000, 1000000000])"
  by (simp add: eval_get NewClient_def eval_parse)

subsection \<open>A response with status 429\<close>

lemma wrap64_in_range: "- (2 ^ 63) \<le> x \<Longrightarrow> x < 2 ^ 63 \<Longrightarrow> wrap64 x = x"
  by (simp add: wrap64_def)

text \<open>
  A \<open>Retry-After\<close> of 1 to 9223372036 seconds is slept in full, and one that is absent,
  does not parse, or is not positive gives the fallback of 60 seconds.
\<close>

lemma sleepSecondaryRateLimit_in_range:
  assumes "strconv_ParseInt (header_Get (Header resp) ''Retry-After'') = Some secs"
    and "0 < secs" and "secs \<le> 9223372036"
  shows "sleepSecondaryRateLimit w resp =
           (secs * 1000000000, time_Sleep w (secs * 1000000000))"
proof -
  have "header_Get (Header resp) ''Retry-After'' \<noteq> []"
    using assms(1) by (auto simp: strconv_ParseInt_empty)
  moreover have "wrap64 (secs * 1000000000) = secs * 1000000000"
    using assms(2,3) by (intro wrap64_in_range) simp_all
  ultimately show ?thesis
    using assms by (simp add: sleepSecondaryRateLimit_def Let_def duration_mul_def time_Second_def)
qed

lemma sleepSecondaryRateLimit_fallback:
  assumes "case strconv_ParseInt (header_Get (Header resp) ''Retry-After'') of
             None \<Rightarrow> True | Some secs \<Rightarrow> secs \<le> 0"
  shows "sleepSecondaryRateLimit w resp = (60000000000, time_Sleep w 60000000000)"
  using assms
  by (auto simp: sleepSecondaryRateLimit_def Let_def defaultFallbackSleep_def duration_mul_def
      time_Second_def wrap64_def split: option.splits)

text \<open>
  Claim C4 at a \<open>Retry-After\<close> of 9223372037 seconds, which \<open>strconv.ParseInt\<close> accepts
  and which is positive: \<open>time.Duration(secs) * time.Second\<close> overflows to a negative
  duration, \<open>time.Sleep\<close> returns at once, and the three attempts are made with no wait
  at all (the clock does not move), neither the header's value nor the fallback.
\<close>

theorem get_overflowing_retry_after:
  "(case get (\<lambda>body. Inr body) (NewClient ''t'')
          (world_at 0 (\<lambda>reqs. Inr \<lparr>StatusCode = 429,
                                    Header = [(''Retry-After'', [''9223372037''])],
                                    Body = ''''\<rparr>))
          ''https://api.github.com/x'' of
      (r, c, w) \<Rightarrow> r = Inl (SecondaryRateLimited ''https://api.github.com/x'' 3)
            \<and> slept w = [- 9223372036709551616, - 9223372036709551616, - 9223372036709551616]
            \<and> now w = 0)
   \<and> strconv_ParseInt ''9223372037'' = Some 9223372037"
  by (simp add: eval_get NewClient_def eval_parse)

subsection \<open>A response with status 403 that is not a rate limit\<close>

text \<open>
  Claim C5, as the code has it. When the first response is a 403 whose
  \<open>X-RateLimit-Remaining\<close> header is absent or not \<open>0\<close>, \<open>get\<close> returns the
  "unexpected status" error for 403 and the URL after that one request, and does not sleep
  after the response: the only sleep of the call is the preemptive wait before the request,
  made when the tracked remaining count is 0 and the tracked reset time plus 5 seconds is
  still ahead. With a tracked remaining count other than 0 the call does not sleep at all.
\<close>

theorem get_403_fails_at_once:
  assumes "bad_url w url = None"
    and "net w (sent w @ [new_request c url]) = Inr resp"
    and "StatusCode resp = 403"
    and "header_Get (Header resp) ''X-RateLimit-Remaining'' \<noteq> ''0''"
  shows "get unmarshal c w url =
           (Inl (UnexpectedStatus 403 url), c,
            (preemptive_wait c w)\<lparr>sent := sent w @ [new_request c url]\<rparr>)
       \<and> slept (snd (snd (get unmarshal c w url))) = slept (preemptive_wait c w)
       \<and> (rateLimitRemaining c \<noteq> 0 \<longrightarrow>
            slept (snd (snd (get unmarshal c w url))) = slept w
            \<and> now (snd (snd (get unmarshal c w url))) = now w)"
proof -
  let ?w0 = "preemptive_wait c w"
  have "get_attempts unmarshal c ?w0 url 0 =
          (Inl (UnexpectedStatus (StatusCode resp) url), c,
           ?w0\<lparr>sent := sent ?w0 @ [new_request c url]\<rparr>)"
    using assms
    by (intro get_attempts_fail_fast)
      (simp_all add: preemptive_wait_frame maxRetries_def secondary_limited_def
        primary_limited_def)
  then have "get unmarshal c w url =
               (Inl (UnexpectedStatus 403 url), c, ?w0\<lparr>sent := sent w @ [new_request c url]\<rparr>)"
    using assms(3) by (simp add: get_def preemptive_wait_frame)
  then show ?thesis
    by (simp add: preemptive_wait_unknown)
qed

text \<open>A client that does not know its quota yet: one request, no sleep.\<close>

theorem get_403_fails_at_once_witness:
  "(case get (\<lambda>body. Inr body) (NewClient ''t'')
          (world_at 0 (\<lambda>reqs. Inr \<lparr>StatusCode = 403, Header = [], Body = ''''\<rparr>))
          ''https://api.github.com/x'' of
      (r, c, w) \<Rightarrow> r = Inl (UnexpectedStatus 403 ''https://api.github.com/x'')
            \<and> length (sent w) = 1 \<and> slept w = [] \<and> now w = 0)"
  using get_403_fails_at_once [of
      "world_at 0 (\<lambda>reqs. Inr \<lparr>StatusCode = 403, Header = [], Body = ''''\<rparr>)"
      "''https://api.github.com/x''" "NewClient ''t''"
      "\<lparr>StatusCode = 403, Header = [], Body = ''''\<rparr>" "\<lambda>body. Inr body"]
  by (simp add: world_at_def header_Get_def NewClient_def preemptive_wait_def)

text \<open>
  Claim C5 as stated fails: a client whose tracked remaining count is 0 and whose reset
  time is 100 seconds ahead sleeps 105 seconds before the request that the 403 answers.
\<close>

theorem get_403_preemptive_sleep_counterexample:
  "(case get (\<lambda>body. Inr body)
          \<lparr>token = ''t'', rateLimitRemaining = 0, rateLimitReset = time_Unix 100\<rparr>
          (world_at 0 (\<lambda>reqs. Inr \<lparr>StatusCode = 403, Header = [], Body = ''''\<rparr>))
          ''https://api.github.com/x'' of
      (r, c, w) \<Rightarrow> r = Inl (UnexpectedStatus 403 ''https://api.github.com/x'')
            \<and> length (sent w) = 1 \<and> slept w = [105000000000] \<and> now w = 105000000000)"
  by (simp add: eval_get eval_parse)

subsection \<open>The tracked rate-limit state\<close>

text \<open>
  Claim C6, as the code has it. An attempt of \<open>get\<close> that receives a response with status
  200 leaves the client with its token unchanged and with each of the two tracked values
  replaced exactly when its header is present and parses: the remaining count becomes the
  value of \<open>X-RateLimit-Remaining\<close>, the reset time the Unix time of
  \<open>X-RateLimit-Reset\<close>, and a header that is absent or does not parse leaves the prior
  value of its field, the reset time as well as the remaining count.
\<close>

theorem rate_limit_state_after_200:
  assumes "attempt < maxRetries" and "bad_url w url = None"
    and "net w (sent w @ [new_request c url]) = Inr resp" and "StatusCode resp = 200"
  shows "token (fst (snd (get_attempts unmarshal c w url attempt))) = token c
       \<and> rateLimitRemaining (fst (snd (get_attempts unmarshal c w url attempt))) =
           (case strconv_Atoi (header_Get (Header resp) ''X-RateLimit-Remaining'') of
              Some n \<Rightarrow> n | None \<Rightarrow> rateLimitRemaining c)
       \<and> rateLimitReset (fst (snd (get_attempts unmarshal c w url attempt))) =
           (case strconv_ParseInt (header_Get (Header resp) ''X-RateLimit-Reset'') of
              Some unix \<Rightarrow> time_Unix unix | None \<Rightarrow> rateLimitReset c)"
  using get_attempts_200 [OF assms, of unmarshal] by (simp add: updateRateLimit_fields)

text \<open>Both headers present and well-formed: both values are replaced.\<close>

theorem rate_limit_state_after_200_witness:
  "fst (snd (get_attempts (\<lambda>body. Inr body)
       \<lparr>token = ''t'', rateLimitRemaining = 42, rateLimitReset = time_Unix 1700000000\<rparr>
       (world_at 0 (\<lambda>reqs. Inr \<lparr>StatusCode = 200,
            Header = [(''X-RateLimit-Remaining'', [''41'']),
                      (''X-RateLimit-Reset'', [''1700003600''])],
            Body = ''{}''\<rparr>))
       ''https://api.github.com/x'' 0))
   = \<lparr>token = ''t'', rateLimitRemaining = 41, rateLimitReset = time_Unix 1700003600\<rparr>"
  using rate_limit_state_after_200 [of 0
      "world_at 0 (\<lambda>reqs. Inr \<lparr>StatusCode = 200,
            Header = [(''X-RateLimit-Remaining'', [''41'']),
                      (''X-RateLimit-Reset'', [''1700003600''])],
            Body = ''{}''\<rparr>)"
      "''https://api.github.com/x''"
      "\<lparr>token = ''t'', rateLimitRemaining = 42, rateLimitReset = time_Unix 1700000000\<rparr>"
      "\<lparr>StatusCode = 200,
            Header = [(''X-RateLimit-Remaining'', [''41'']),
                      (''X-RateLimit-Reset'', [''1700003600''])],
            Body = ''{}''\<rparr>" "\<lambda>body. Inr body"]
  by (simp add: maxRetries_def world_at_def header_Get_def eval_parse Client.equality)

text \<open>
  Claim C6 as stated fails: with the \<open>X-RateLimit-Reset\<close> header absent, or present and
  not a number, the reset time after the update is the prior one, whatever it was; it is not
  replaced.
\<close>

theorem reset_kept_counterexample:
  "rateLimitReset (updateRateLimit
       \<lparr>token = ''t'', rateLimitRemaining = 42, rateLimitReset = time_Unix 1700000000\<rparr>
       \<lparr>StatusCode = 200, Header = [(''X-RateLimit-Remaining'', [''41''])], Body = ''{}''\<rparr>)
     = time_Unix 1700000000
   \<and> rateLimitReset (updateRateLimit
       \<lparr>token = ''t'', rateLimitRemaining = 42, rateLimitReset = time_Unix 1800000000\<rparr>
       \<lparr>StatusCode = 200, Header = [(''X-RateLimit-Remaining'', [''41''])], Body = ''{}''\<rparr>)
     = time_Unix 1800000000
   \<and> rateLimitReset (updateRateLimit
       \<lparr>token = ''t'', rateLimitRemaining = 42, rateLimitReset = time_Unix 1700000000\<rparr>
       \<lparr>StatusCode = 200, Header = [(''X-RateLimit-Reset'', [''soon''])], Body = ''{}''\<rparr>)
     = time_Unix 1700000000
   \<and> time_Unix 1700000000 \<noteq> time_Unix 1800000000"
  by (simp add: updateRateLimit_def header_Get_def eval_parse time_Unix_def)

subsection \<open>Seat pagination\<close>

lemma new_request_token: "token c' = token c \<Longrightarrow> new_request c' url = new_request c url"
  by (simp add: new_request_def setHeaders_def)

lemma page_requests_token:
  "token c' = token c \<Longrightarrow> page_requests c' ent page k = page_requests c ent page k"
  by (induction k arbitrary: page) (simp_all add: new_request_token [of c' c])

lemma pages_served_cong:
  "net w' = net w \<Longrightarrow> bad_url w' = bad_url w \<Longrightarrow> token c' = token c \<Longrightarrow>
     pages_served um c' w' ent prior page ps = pages_served um c w ent prior page ps"
  by (induction ps arbitrary: prior page) (simp_all add: new_request_token [of c' c])

lemma get_200:
  assumes "bad_url w url = None"
    and "net w (sent w @ [new_request c url]) = Inr resp" and "StatusCode resp = 200"
  shows "get unmarshal c w url =
           (json_Decode unmarshal (Body resp), updateRateLimit c resp,
            (preemptive_wait c w)\<lparr>sent := sent w @ [new_request c url]\<rparr>)"
  unfolding get_def
  using get_attempts_200 [of 0 "preemptive_wait c w" url c resp unmarshal] assms
  by (simp add: preemptive_wait_frame maxRetries_def)

lemma ListCopilotSeats_loop_pages:
  assumes "pages_served um c w ent (sent w) page (ps @ [lastp])"
    and "\<forall>p\<in>set ps. perPage \<le> int (length (Seats p))"
    and "int (length (Seats lastp)) < perPage"
  shows "\<exists>c' w'. ListCopilotSeats_loop um c w ent logins page =
             Some (Inr (logins @ concat (map seat_logins (ps @ [lastp]))), c', w')
           \<and> sent w' = sent w @ page_requests c ent page (Suc (length ps))
           \<and> token c' = token c"
  using assms
proof (induction ps arbitrary: c w logins page)
  case Nil
  let ?url = "seats_url ent perPage page"
  from Nil(1) obtain resp where r: "bad_url w ?url = None"
      "net w (sent w @ [new_request c ?url]) = Inr resp" "StatusCode resp = 200"
      "json_Decode um (Body resp) = Inr lastp"
    by (auto split: sum.splits)
  have g: "get um c w ?url = (Inr lastp, updateRateLimit c resp,
            (preemptive_wait c w)\<lparr>sent := sent w @ [new_request c ?url]\<rparr>)"
    using get_200 [OF r(1-3), of um] r(4) by simp
  show ?case
    using Nil(3)
    by (subst ListCopilotSeats_loop.simps)
      (simp add: g seat_logins_def updateRateLimit_fields)
next
  case (Cons p ps)
  let ?url = "seats_url ent perPage page"
  let ?req = "new_request c ?url"
  from Cons.prems(1) obtain resp where r: "bad_url w ?url = None"
      "net w (sent w @ [?req]) = Inr resp" "StatusCode resp = 200"
      "json_Decode um (Body resp) = Inr p"
    and rest: "pages_served um c w ent (sent w @ [?req]) (page + 1) (ps @ [lastp])"
    by (auto split: sum.splits)
  let ?c1 = "updateRateLimit c resp"
  let ?w1 = "(preemptive_wait c w)\<lparr>sent := sent w @ [?req]\<rparr>"
  have g: "get um c w ?url = (Inr p, ?c1, ?w1)"
    using get_200 [OF r(1-3), of um] r(4) by simp
  have tok: "token ?c1 = token c" by (simp add: updateRateLimit_fields)
  have "pages_served um ?c1 ?w1 ent (sent ?w1) (page + 1) (ps @ [lastp])"
    using rest pages_served_cong [of ?w1 w ?c1 c um ent "sent w @ [?req]" "page + 1" "ps @ [lastp]"]
    by (simp add: preemptive_wait_frame tok)
  from Cons.IH [OF this, of "logins @ seat_logins p"] Cons.prems(2,3)
  obtain c' w' where
    l: "ListCopilotSeats_loop um ?c1 ?w1 ent (logins @ seat_logins p) (page + 1) =
          Some (Inr ((logins @ seat_logins p) @ concat (map seat_logins (ps @ [lastp]))), c', w')"
    and s: "sent w' = sent ?w1 @ page_requests ?c1 ent (page + 1) (Suc (length ps))"
    and t: "token c' = token ?c1"
    by auto
  have big: "\<not> int (length (Seats p)) < perPage" using Cons.prems(2) by simp
  have "ListCopilotSeats_loop um c w ent logins page =
          ListCopilotSeats_loop um ?c1 ?w1 ent (logins @ seat_logins p) (page + 1)"
    using big by (subst ListCopilotSeats_loop.simps) (simp add: g seat_logins_def)
  then show ?case
    using l s t tok by (simp add: page_requests_token [OF tok] new_request_token [OF tok])
qed


text \<open>
  Claim C7. \<open>ListCopilotSeats\<close> asks for pages of 100 seats from page 1 on and stops at
  the first page with fewer than 100 seats. When the network serves the pages \<open>ps\<close>, each
  of 100 seats or more, and then a page \<open>lastp\<close> of fewer than 100, it returns the logins
  of all these pages in page order after exactly one request for each page. For pages of
  100, 100 and 37 seats these are 237 logins after the 3 requests for pages 1, 2 and 3; for a
  first page with no seats it is the empty list after the 1 request for page 1.
\<close>

theorem ListCopilotSeats_pagination:
  "(pages_served unmarshal c w enterprise (sent w) 1 (ps @ [lastp])
      \<and> (\<forall>p\<in>set ps. perPage \<le> int (length (Seats p)))
      \<and> int (length (Seats lastp)) < perPage
    \<longrightarrow> (\<exists>c' w'. ListCopilotSeats unmarshal c w enterprise =
                  Some (Inr (concat (map seat_logins (ps @ [lastp]))), c', w')
              \<and> sent w' = sent w @ page_requests c enterprise 1 (Suc (length ps))))
   \<and> (pages_served unmarshal c w enterprise (sent w) 1 [p1, p2, p3]
      \<and> length (Seats p1) = 100 \<and> length (Seats p2) = 100 \<and> length (Seats p3) = 37
    \<longrightarrow> (\<exists>logins c' w'. ListCopilotSeats unmarshal c w enterprise = Some (Inr logins, c', w')
              \<and> logins = seat_logins p1 @ seat_logins p2 @ seat_logins p3
              \<and> length logins = 237
              \<and> sent w' = sent w @ page_requests c enterprise 1 3))
   \<and> (pages_served unmarshal c w enterprise (sent w) 1 [p0] \<and> Seats p0 = []
    \<longrightarrow> (\<exists>c' w'. ListCopilotSeats unmarshal c w enterprise = Some (Inr [], c', w')
              \<and> sent w' = sent w @ page_requests c enterprise 1 1))"
proof (intro conjI impI)
  assume a: "pages_served unmarshal c w enterprise (sent w) 1 (ps @ [lastp])
      \<and> (\<forall>p\<in>set ps. perPage \<le> int (length (Seats p)))
      \<and> int (length (Seats lastp)) < perPage"
  then show "\<exists>c' w'. ListCopilotSeats unmarshal c w enterprise =
                  Some (Inr (concat (map seat_logins (ps @ [lastp]))), c', w')
              \<and> sent w' = sent w @ page_requests c enterprise 1 (Suc (length ps))"
    using ListCopilotSeats_loop_pages [of unmarshal c w enterprise 1 ps lastp "[]"]
    unfolding ListCopilotSeats_def by auto
next
  assume a: "pages_served unmarshal c w enterprise (sent w) 1 [p1, p2, p3]
      \<and> length (Seats p1) = 100 \<and> length (Seats p2) = 100 \<and> length (Seats p3) = 37"
  then show "\<exists>logins c' w'. ListCopilotSeats unmarshal c w enterprise = Some (Inr logins, c', w')
              \<and> logins = seat_logins p1 @ seat_logins p2 @ seat_logins p3
              \<and> length logins = 237
              \<and> sent w' = sent w @ page_requests c enterprise 1 3"
    using ListCopilotSeats_loop_pages [of unmarshal c w enterprise 1 "[p1, p2]" p3 "[]"]
    unfolding ListCopilotSeats_def
    by (auto simp: perPage_def seat_logins_def numeral_3_eq_3)
next
  assume a: "pages_served unmarshal c w enterprise (sent w) 1 [p0] \<and> Seats p0 = []"
  then show "\<exists>c' w'. ListCopilotSeats unmarshal c w enterprise = Some (Inr [], c', w')
              \<and> sent w' = sent w @ page_requests c enterprise 1 1"
    using ListCopilotSeats_loop_pages [of unmarshal c w enterprise 1 "[]" p0 "[]"]
    unfolding ListCopilotSeats_def
    by (auto simp: perPage_def seat_logins_def)
qed


text \<open>
  Pages of 100, 100 and 37 seats whose logins are \<open>a\<close>, \<open>b\<close> and \<open>c\<close>, and a
  first page with no seat.
\<close>

theorem ListCopilotSeats_pagination_witness:
  "(\<exists>c' w'. ListCopilotSeats seats_of_bytes (NewClient ''t'')
        (world_at 0 (\<lambda>reqs.
           if length reqs = 1 then Inr (ok_response (CHR ''['' # replicate 100 CHR ''a''))
           else if length reqs = 2 then Inr (ok_response (CHR ''['' # replicate 100 CHR ''b''))
           else Inr (ok_response (CHR ''['' # replicate 37 CHR ''c''))))
        ''acme''
      = Some (Inr (replicate 100 ''a'' @ replicate 100 ''b'' @ replicate 37 ''c''), c', w')
      \<and> length (replicate 100 ''a'' @ replicate 100 ''b'' @ replicate 37 ''c'') = 237
      \<and> length (sent w') = 3)
   \<and> (\<exists>c' w'. ListCopilotSeats seats_of_bytes (NewClient ''t'')
        (world_at 0 (\<lambda>reqs. Inr (ok_response ''['')))
        ''acme''
      = Some (Inr [], c', w')
      \<and> length (sent w') = 1)"
proof -
  let ?W3 = "world_at 0 (\<lambda>reqs.
           if length reqs = 1 then Inr (ok_response (CHR ''['' # replicate 100 CHR ''a''))
           else if length reqs = 2 then Inr (ok_response (CHR ''['' # replicate 100 CHR ''b''))
           else Inr (ok_response (CHR ''['' # replicate 37 CHR ''c'')))"
  let ?W0 = "world_at 0 (\<lambda>reqs. Inr (ok_response ''[''))"
  let ?page = "\<lambda>n ch. \<lparr>TotalSeats = n, Seats = replicate (nat n) \<lparr>Assignee = \<lparr>Login = [ch]\<rparr>\<rparr>\<rparr>"
  have three: "\<exists>logins c' w'. ListCopilotSeats seats_of_bytes (NewClient ''t'') ?W3 ''acme'' =
                 Some (Inr logins, c', w')
             \<and> logins = seat_logins (?page 100 CHR ''a'') @ seat_logins (?page 100 CHR ''b'')
                          @ seat_logins (?page 37 CHR ''c'')
             \<and> length logins = 237
             \<and> sent w' = sent ?W3 @ page_requests (NewClient ''t'') ''acme'' 1 3"
    using ListCopilotSeats_pagination [where unmarshal = seats_of_bytes
        and c = "NewClient ''t''" and w = ?W3 and enterprise = "''acme''"
        and ?p1.0 = "?page 100 CHR ''a''" and ?p2.0 = "?page 100 CHR ''b''"
        and ?p3.0 = "?page 37 CHR ''c''"]
    by (simp add: world_at_def ok_response_def seats_of_bytes_def json_Decode_def)
  have none: "\<exists>c' w'. ListCopilotSeats seats_of_bytes (NewClient ''t'') ?W0 ''acme'' =
                 Some (Inr [], c', w')
             \<and> sent w' = sent ?W0 @ page_requests (NewClient ''t'') ''acme'' 1 1"
    using ListCopilotSeats_pagination [where unmarshal = seats_of_bytes
        and c = "NewClient ''t''" and w = ?W0 and enterprise = "''acme''"
        and ?p0.0 = "?page 0 CHR ''a''"]
    by (simp add: world_at_def ok_response_def seats_of_bytes_def json_Decode_def)
  from three obtain c3 w3 where
    "ListCopilotSeats seats_of_bytes (NewClient ''t'') ?W3 ''acme'' =
       Some (Inr (replicate 100 ''a'' @ replicate 100 ''b'' @ replicate 37 ''c''), c3, w3)"
    "length (sent w3) = 3"
    by (auto simp: seat_logins_def world_at_def numeral_3_eq_3)
  moreover from none obtain c0 w0 where
    "ListCopilotSeats seats_of_bytes (NewClient ''t'') ?W0 ''acme'' = Some (Inr [], c0, w0)"
    "length (sent w0) = 1"
    by (auto simp: world_at_def)
  ultimately show ?thesis by simp
qed

subsection \<open>The collection cycle\<close>

lemma collect_entries_fetches:
  "\<exists>c' w'. collect_entries um c w ent logins entries =
     (entries @ concat (map (observations ent) (usage_fetches um c w ent logins)), c', w')"
proof (induction logins arbitrary: c w entries)
  case Nil
  show ?case by simp
next
  case (Cons login logins)
  obtain r c1 w1 where g: "GetUserPremiumUsage um c w ent login = (r, c1, w1)"
    by (cases "GetUserPremiumUsage um c w ent login") auto
  show ?case
  proof (cases r)
    case (Inl err)
    from Cons.IH [of c1 w1 entries] show ?thesis
      using g Inl by auto
  next
    case (Inr usage)
    from Cons.IH [of c1 w1 "entries @ map (entry_of ent login) (UsageItems usage)"]
    show ?thesis
      using g Inr by auto
  qed
qed

lemma usage_fetches_logins: "map fst (usage_fetches um c w ent logins) = logins"
  by (induction logins arbitrary: c w) (auto split: prod.splits)

text \<open>
  Claim C8. Once the seats are listed, \<open>collect\<close> fetches the usage of every login, in
  order, whether or not an earlier fetch failed, returns no error, and publishes exactly the
  observations of the fetches that succeeded: one for each usage item of those users, in
  order, and none for a user whose fetch failed.
\<close>

theorem collect_skips_failed_users:
  assumes "ListCopilotSeats unmarshalSeats c w enterprise = Some (Inr logins, c1, w1)"
  shows "(\<exists>c2 w2. collect unmarshalSeats unmarshalUsage c w m enterprise =
           Some (None, c2, w2,
             publish m (concat (map (observations enterprise)
                                 (usage_fetches unmarshalUsage c1 w1 enterprise logins)))))
       \<and> map fst (usage_fetches unmarshalUsage c1 w1 enterprise logins) = logins"
  using assms collect_entries_fetches [of unmarshalUsage c1 w1 enterprise logins "[]"]
  by (auto simp: collect_def usage_fetches_logins)

text \<open>
  Claim C9. When the seat listing fails, \<open>collect\<close> returns that error, wrapped, and
  leaves the gauges as they were: the values published are the previous ones and no
  operation, reset or set, is performed on them.
\<close>

theorem collect_seat_listing_fails:
  assumes "ListCopilotSeats unmarshalSeats c w enterprise = Some (Inl err, c1, w1)"
  shows "collect unmarshalSeats unmarshalUsage c w m enterprise =
           Some (Some (Wrapped ListingSeats err), c1, w1, m)"
  using assms by (simp add: collect_def)


lemmas eval_collect = ListCopilotSeats_def ListCopilotSeats_loop.simps GetUserPremiumUsage_def
  seats_of_bytes_def usage_of_bytes_def ok_response_def perPage_def NewClient_def

text \<open>
  The seats \<open>A\<close>, \<open>B\<close> and \<open>C\<close>, the fetch for \<open>B\<close> failing: four requests are made,
  no error is returned and the gauges are reset and then set for \<open>A\<close> and \<open>C\<close> only.
\<close>

theorem collect_skips_failed_users_witness:
  "\<exists>c2 w2 m2. collect seats_of_bytes usage_of_bytes (NewClient ''t'')
        (world_at 0 server_failing_B) no_metrics ''acme'' = Some (None, c2, w2, m2)
     \<and> length (sent w2) = 4
     \<and> performed m2 =
         [Reset RequestAmount, Reset RequestCostGross, Reset RequestCostDiscount,
          SetValue RequestAmount
            [(''user'', ''A''), (''sku'', ''copilot_premium_request''), (''model'', ''m''),
             (''enterprise'', ''acme'')] ''3'',
          SetValue RequestCostGross
            [(''user'', ''A''), (''sku'', ''copilot_premium_request''), (''model'', ''m''),
             (''enterprise'', ''acme'')] ''0.12'',
          SetValue RequestCostDiscount
            [(''user'', ''A''), (''sku'', ''copilot_premium_request''), (''model'', ''m''),
             (''enterprise'', ''acme'')] ''0.04'',
          SetValue RequestAmount
            [(''user'', ''C''), (''sku'', ''copilot_premium_request''), (''model'', ''m''),
             (''enterprise'', ''acme'')] ''3'',
          SetValue RequestCostGross
            [(''user'', ''C''), (''sku'', ''copilot_premium_request''), (''model'', ''m''),
             (''enterprise'', ''acme'')] ''0.12'',
          SetValue RequestCostDiscount
            [(''user'', ''C''), (''sku'', ''copilot_premium_request''), (''model'', ''m''),
             (''enterprise'', ''acme'')] ''0.04'']"
proof -
  let ?c = "NewClient ''t''"
  let ?W = "world_at 0 server_failing_B"
  let ?w1 = "?W\<lparr>sent := [new_request ?c (seats_url ''acme'' perPage 1)]\<rparr>"
  have L: "ListCopilotSeats seats_of_bytes ?c ?W ''acme'' = Some (Inr [''A'', ''B'', ''C''], ?c, ?w1)"
    by (simp add: eval_collect eval_get server_failing_B_def)
  show ?thesis
    using collect_skips_failed_users [OF L, of usage_of_bytes no_metrics]
    by (simp add: collect_def L eval_collect eval_get server_failing_B_def usage_url_def
        apiBase_def publish_def reset_gauges_def perform_def no_metrics_def entry_of_def)
qed


text \<open>
  A network that answers 429 to every request: the seat listing gives up after three
  attempts, and the gauges are untouched.
\<close>

theorem collect_seat_listing_fails_witness:
  "collect seats_of_bytes usage_of_bytes (NewClient ''t'')
        (world_at 0 server_always_429) (no_metrics :: string metrics) ''acme''
   = Some (Some (Wrapped ListingSeats (Wrapped (ListingSeatsPage 1)
             (SecondaryRateLimited (seats_url ''acme'' 100 1) 3))),
           NewClient ''t'',
           (world_at 0 server_always_429)
             \<lparr>now := 3000000000,
              sent := replicate 3 (new_request (NewClient ''t'') (seats_url ''acme'' 100 1)),
              slept := [1000000000, 1000000000, 1000000000]\<rparr>,
           no_metrics)"
proof -
  let ?c = "NewClient ''t''"
  let ?W = "world_at 0 server_always_429"
  let ?w1 = "?W\<lparr>now := 3000000000,
              sent := replicate 3 (new_request ?c (seats_url ''acme'' 100 1)),
              slept := [1000000000, 1000000000, 1000000000]\<rparr>"
  have L: "ListCopilotSeats seats_of_bytes ?c ?W ''acme'' =
             Some (Inl (Wrapped (ListingSeatsPage 1)
                     (SecondaryRateLimited (seats_url ''acme'' 100 1) 3)), ?c, ?w1)"
    by (simp add: eval_collect eval_get eval_parse server_always_429_def numeral_3_eq_3)
  show ?thesis
    using collect_seat_listing_fails [OF L, of usage_of_bytes no_metrics] by simp
qed

subsection \<open>Publication and concurrent scrapes\<close>

text \<open>A scrape cannot take the read lock while the worker publishes.\<close>

lemma scrape_waits_for_publication:
  "writing (collectMu p) \<Longrightarrow> step (ScrapeRLock i) p = None"
  by (simp add: rw_RLock_def split: scrape.splits)

lemma gauges_perform: "gauges (perform m opn) = apply_op (gauges m) opn"
  by (simp add: perform_def)

lemma performed_perform: "performed (perform m opn) = performed m @ [opn]"
  by (simp add: perform_def)

lemma gauges_set_gauges: "gauges (set_gauges m es) = foldl apply_op (gauges m) (set_ops es)"
  by (induction es arbitrary: m) (simp_all add: gauges_perform)

lemma performed_set_gauges: "performed (set_gauges m es) = performed m @ set_ops es"
  by (induction es arbitrary: m) (simp_all add: performed_perform)

lemma gauges_publish: "gauges (publish m entries) = foldl apply_op (gauges m) (publish_ops entries)"
  by (simp add: publish_def reset_gauges_def publish_ops_def gauges_set_gauges gauges_perform)

lemma performed_publish: "performed (publish m entries) = performed m @ publish_ops entries"
  by (simp add: publish_def reset_gauges_def publish_ops_def performed_set_gauges performed_perform)

lemma serving_count_update:
  "i < length scs \<Longrightarrow>
     length (filter is_serving (scs[i := sc])) + (if is_serving (scs ! i) then 1 else 0) =
     length (filter is_serving scs) + (if is_serving sc then 1 else 0)"
proof (induction scs arbitrary: i)
  case Nil
  then show ?case by simp
next
  case (Cons a scs)
  then show ?case by (cases i) auto
qed

lemma list_all_update:
  "list_all P xs \<Longrightarrow> P y \<Longrightarrow> list_all P (xs[i := y])"
  by (induction xs arbitrary: i) (auto split: nat.splits)

lemma no_serving:
  "length (filter is_serving scs) = 0 \<Longrightarrow> list_all (scrape_ok old new cur) scs \<Longrightarrow>
     list_all (scrape_ok old new cur') scs"
proof (induction scs)
  case Nil
  then show ?case by simp
next
  case (Cons a scs)
  then show ?case by (cases a) (auto split: if_splits)
qed

lemma serving_counted:
  "i < length scs \<Longrightarrow> is_serving (scs ! i) \<Longrightarrow> 0 < length (filter is_serving scs)"
  by (metis filter_empty_conv length_greater_0_conv nth_mem)

lemma worker_step_inv:
  assumes "publish_inv old new p" and "worker_step p = Some p'"
  shows "publish_inv old new p'"
proof (cases "the_worker p")
  case (Collected entries)
  then show ?thesis
    using assms
    by (auto simp: publish_inv_def rw_Lock_def publish_ops_def split: if_splits)
next
  case (Publishing ops)
  show ?thesis
  proof (cases ops)
    case Nil
    then show ?thesis
      using assms Publishing
      by (auto simp: publish_inv_def rw_Unlock_def split: if_splits)
  next
    case (Cons opn rest)
    then show ?thesis
      using assms Publishing
      by (auto simp: publish_inv_def intro: no_serving)
  qed
next
  case Returned
  then show ?thesis using assms by simp
qed


lemma cur_is_snapshot:
  assumes "publish_inv old new p" and "0 < reading (collectMu p)"
  shows "vecs p = old \<or> vecs p = new"
  using assms by (cases "the_worker p") (auto simp: publish_inv_def)

lemma scrape_ok_nth:
  "list_all (scrape_ok old new cur) scs \<Longrightarrow> i < length scs \<Longrightarrow> scrape_ok old new cur (scs ! i)"
  by (simp add: list_all_length)

lemma RLock_inv:
  assumes "publish_inv old new p" and "step (ScrapeRLock i) p = Some p'"
  shows "publish_inv old new p'"
proof -
  from assms(2) have i: "i < length (scrapes p)" and a: "scrapes p ! i = Arrived"
    and w: "\<not> writing (collectMu p)"
    and p': "p' = p\<lparr>collectMu := (collectMu p)\<lparr>reading := reading (collectMu p) + 1\<rparr>,
                    scrapes := (scrapes p)[i := Serving []]\<rparr>"
    by (auto simp: rw_RLock_def split: if_splits scrape.splits)
  have "worker_ok old new p' (the_worker p')"
    using assms(1) w by (cases "the_worker p") (auto simp: publish_inv_def p')
  moreover have "reading (collectMu p') = length (filter is_serving (scrapes p'))"
    using assms(1) serving_count_update [OF i, of "Serving []"] a
    by (simp add: publish_inv_def p')
  moreover have "list_all (scrape_ok old new (vecs p')) (scrapes p')"
    using assms(1) by (auto simp: publish_inv_def p' agrees_def intro: list_all_update)
  ultimately show ?thesis by (simp add: publish_inv_def)
qed

lemma Gather_inv:
  assumes "publish_inv old new p" and "step (ScrapeGather i g) p = Some p'"
  shows "publish_inv old new p'"
proof -
  from assms(2) obtain seen where i: "i < length (scrapes p)"
    and a: "scrapes p ! i = Serving seen"
    and p': "p' = p\<lparr>scrapes := (scrapes p)[i := Serving (seen @ [(g, vecs p g)])]\<rparr>"
    by (auto split: if_splits scrape.splits)
  have "agrees (vecs p) seen"
    using scrape_ok_nth [of old new "vecs p" "scrapes p" i] assms(1) i a
    by (simp add: publish_inv_def)
  then have "scrape_ok old new (vecs p) (Serving (seen @ [(g, vecs p g)]))"
    by (simp add: agrees_def)
  then have "list_all (scrape_ok old new (vecs p')) (scrapes p')"
    using assms(1) by (auto simp: publish_inv_def p' intro: list_all_update)
  moreover have "reading (collectMu p') = length (filter is_serving (scrapes p'))"
    using assms(1) serving_count_update [OF i, of "Serving (seen @ [(g, vecs p g)])"] a
    by (simp add: publish_inv_def p')
  moreover have "worker_ok old new p' (the_worker p')"
    using assms(1) by (cases "the_worker p") (auto simp: publish_inv_def p')
  ultimately show ?thesis by (simp add: publish_inv_def)
qed

lemma RUnlock_inv:
  assumes "publish_inv old new p" and "step (ScrapeRUnlock i) p = Some p'"
  shows "publish_inv old new p'"
proof -
  from assms(2) obtain seen where i: "i < length (scrapes p)"
    and a: "scrapes p ! i = Serving seen"
    and r: "0 < reading (collectMu p)"
    and p': "p' = p\<lparr>collectMu := (collectMu p)\<lparr>reading := reading (collectMu p) - 1\<rparr>,
                    scrapes := (scrapes p)[i := Served seen]\<rparr>"
    by (auto simp: rw_RUnlock_def split: if_splits scrape.splits)
  have "agrees (vecs p) seen"
    using scrape_ok_nth [of old new "vecs p" "scrapes p" i] assms(1) i a
    by (simp add: publish_inv_def)
  then have "scrape_ok old new (vecs p) (Served seen)"
    using cur_is_snapshot [OF assms(1) r] by auto
  then have "list_all (scrape_ok old new (vecs p')) (scrapes p')"
    using assms(1) by (auto simp: publish_inv_def p' intro: list_all_update)
  moreover have "reading (collectMu p') = length (filter is_serving (scrapes p'))"
    using assms(1) serving_count_update [OF i, of "Served seen"] a r
    by (simp add: publish_inv_def p')
  moreover have "worker_ok old new p' (the_worker p')"
    using assms(1) r by (cases "the_worker p") (auto simp: publish_inv_def p')
  ultimately show ?thesis by (simp add: publish_inv_def)
qed

lemma step_inv:
  "publish_inv old new p \<Longrightarrow> step a p = Some p' \<Longrightarrow> publish_inv old new p'"
proof (cases a)
  case WorkerStep
  assume "publish_inv old new p" "step a p = Some p'"
  then show ?thesis using WorkerStep worker_step_inv [of old new p p'] by simp
next
  case (ScrapeRLock i)
  assume "publish_inv old new p" "step a p = Some p'"
  then show ?thesis using ScrapeRLock RLock_inv [of old new p i p'] by simp
next
  case (ScrapeGather i g)
  assume "publish_inv old new p" "step a p = Some p'"
  then show ?thesis using ScrapeGather Gather_inv [of old new p i g p'] by simp
next
  case (ScrapeRUnlock i)
  assume "publish_inv old new p" "step a p = Some p'"
  then show ?thesis using ScrapeRUnlock RUnlock_inv [of old new p i p'] by simp
qed

lemma run_inv:
  "publish_inv old new p \<Longrightarrow> run schedule p = Some p' \<Longrightarrow> publish_inv old new p'"
proof (induction schedule arbitrary: p)
  case Nil
  then show ?case by simp
next
  case (Cons a schedule)
  then show ?case by (auto split: option.splits dest: step_inv)
qed

lemma start_inv:
  "publish_inv (gauges m) (gauges (publish m entries)) (start m entries n)"
  by (simp add: publish_inv_def start_def gauges_publish list_all_length)

lemma inv_sees_one_snapshot:
  assumes "publish_inv old new p"
  shows "list_all (sees_one_snapshot old new) (scrapes p)"
proof -
  have "sees_one_snapshot old new (scrapes p ! i)" if i: "i < length (scrapes p)" for i
  proof (cases "scrapes p ! i")
    case Arrived
    then show ?thesis by (simp add: sees_one_snapshot_def agrees_def)
  next
    case (Serving seen)
    then have "0 < reading (collectMu p)"
      using assms serving_counted [OF i] by (simp add: publish_inv_def)
    then have "vecs p = old \<or> vecs p = new" by (rule cur_is_snapshot [OF assms])
    moreover have "agrees (vecs p) seen"
      using scrape_ok_nth [of old new "vecs p" "scrapes p" i] assms i Serving
      by (simp add: publish_inv_def)
    ultimately show ?thesis using Serving by (auto simp: sees_one_snapshot_def)
  next
    case (Served seen)
    then show ?thesis
      using scrape_ok_nth [of old new "vecs p" "scrapes p" i] assms i
      by (simp add: publish_inv_def sees_one_snapshot_def)
  qed
  then show ?thesis by (simp add: list_all_length)
qed

lemma step_length: "step a p = Some p' \<Longrightarrow> length (scrapes p') = length (scrapes p)"
  by (cases a)
    (auto split: worker.splits list.splits option.splits if_splits scrape.splits)

lemma run_length: "run schedule p = Some p' \<Longrightarrow> length (scrapes p') = length (scrapes p)"
proof (induction schedule arbitrary: p)
  case Nil
  then show ?case by simp
next
  case (Cons a schedule)
  then show ?case by (auto split: option.splits dest: step_length)
qed

text \<open>
  Claim C1. In every interleaving of the steps of one publication (\<open>Lock\<close>, the three
  resets, the three sets for each entry, \<open>Unlock\<close>) with the steps of any number of scrapes
  (\<open>RLock\<close>, the gathering of vectors, \<open>RUnlock\<close>), every scrape gathers either nothing
  but the old values or nothing but the new values of the vectors, whether it is still being
  served or has been served: none sees a vector that was reset and not yet set again, or a
  mix of the two publications. And whenever \<open>collectMu\<close> is not held for writing, the
  vectors hold exactly the old or exactly the new snapshot.
\<close>

theorem scrapes_see_one_snapshot:
  assumes "run schedule (start m entries n) = Some p"
  shows "list_all (sees_one_snapshot (gauges m) (gauges (publish m entries))) (scrapes p)
       \<and> length (scrapes p) = n
       \<and> (writing (collectMu p) \<or> vecs p = gauges m \<or> vecs p = gauges (publish m entries))"
proof -
  have inv: "publish_inv (gauges m) (gauges (publish m entries)) p"
    using run_inv [OF start_inv assms] .
  have "writing (collectMu p) \<or> vecs p = gauges m \<or> vecs p = gauges (publish m entries)"
    using inv by (cases "the_worker p") (auto simp: publish_inv_def)
  moreover have "length (scrapes p) = n"
    using run_length [OF assms] by (simp add: start_def)
  ultimately show ?thesis
    using inv_sees_one_snapshot [OF inv] by simp
qed

text \<open>
  Two scrapes and one entry: the first scrape is served before the worker locks and sees the
  old, empty vectors; the second is served after the worker unlocks and sees the new value.
\<close>

theorem scrapes_see_one_snapshot_witness:
  "\<exists>p. run [ScrapeRLock 0, ScrapeGather 0 RequestAmount, ScrapeGather 0 RequestCostGross,
             ScrapeRUnlock 0,
             WorkerStep, WorkerStep, WorkerStep, WorkerStep, WorkerStep, WorkerStep, WorkerStep,
             WorkerStep,
             ScrapeRLock 1, ScrapeGather 1 RequestAmount, ScrapeRUnlock 1]
         (start no_metrics
            [\<lparr>labels = [(''user'', ''A'')], grossQuantity = ''3'', grossAmount = ''0.12'',
              discountAmount = ''0.04''\<rparr>] 2) = Some p
      \<and> map gathered (scrapes p) =
          [[(RequestAmount, Map.empty), (RequestCostGross, Map.empty)],
           [(RequestAmount, [[(''user'', ''A'')] \<mapsto> ''3''])]]
      \<and> list_all (sees_one_snapshot (gauges no_metrics)
            (gauges (publish no_metrics
               [\<lparr>labels = [(''user'', ''A'')], grossQuantity = ''3'', grossAmount = ''0.12'',
                 discountAmount = ''0.04''\<rparr>])))
           (scrapes p)"
proof -
  let ?e = "\<lparr>labels = [(''user'', ''A'')], grossQuantity = ''3'', grossAmount = ''0.12'',
              discountAmount = ''0.04''\<rparr>"
  let ?sched = "[ScrapeRLock 0, ScrapeGather 0 RequestAmount, ScrapeGather 0 RequestCostGross,
             ScrapeRUnlock 0,
             WorkerStep, WorkerStep, WorkerStep, WorkerStep, WorkerStep, WorkerStep, WorkerStep,
             WorkerStep,
             ScrapeRLock 1, ScrapeGather 1 RequestAmount, ScrapeRUnlock 1]"
  have "\<exists>p. run ?sched (start no_metrics [?e] 2) = Some p
          \<and> map gathered (scrapes p) =
              [[(RequestAmount, Map.empty), (RequestCostGross, Map.empty)],
               [(RequestAmount, [[(''user'', ''A'')] \<mapsto> ''3''])]]"
    by (simp add: start_def no_metrics_def publish_ops_def rw_Lock_def rw_Unlock_def
        rw_RLock_def rw_RUnlock_def numeral_2_eq_2)
  then obtain p where r: "run ?sched (start no_metrics [?e] 2) = Some p"
    and g: "map gathered (scrapes p) =
              [[(RequestAmount, Map.empty), (RequestCostGross, Map.empty)],
               [(RequestAmount, [[(''user'', ''A'')] \<mapsto> ''3''])]]"
    by (elim exE conjE)
  have "list_all (sees_one_snapshot (gauges no_metrics) (gauges (publish no_metrics [?e])))
          (scrapes p)"
    using scrapes_see_one_snapshot [OF r] by (elim conjE)
  then show ?thesis
    using r g by (intro exI [of _ p] conjI)
qed

end
